theory Spec2Isabelle
  imports Complex_Main "HOL-Library.Log_Nat"
begin

section \<open>Machine integers and configuration\<close>

text \<open>
  The source computes with \<open>ui32\<close>. Values of that type are natural numbers here, and
  \<open>ui32\<close> is the reduction modulo \<open>2 ^ 32\<close> that an unsigned 32-bit operation applies to
  its mathematical result. It is written at every place where the source multiplies,
  shifts or narrows.
\<close>

definition ui32 :: "nat \<Rightarrow> nat" where
  "ui32 n = n mod 2 ^ 32"

text \<open>
  \<open>EBoostingType\<close> and \<open>EObjectsOrder\<close> are declared outside the files at hand. The
  source compares against \<open>EBoostingType::Plain\<close> and \<open>EObjectsOrder::Ordered\<close> only, so
  each enumeration has that value and one constructor for every other value.
\<close>

datatype EBoostingType = Plain | OrderedBoosting

datatype EObjectsOrder = Ordered | Unordered

text \<open>
  The fields of \<open>NCatboostOptions::TBoostingOptions\<close> that \<open>TDynamicBoosting\<close> reads. The
  fold length multiplier and the learning rate are of type \<open>double\<close> in the source; here
  each is the rational number that the \<open>double\<close> stands for.
\<close>

record TBoostingOptions =
  BoostingType :: EBoostingType
  PermutationBlockSize :: nat
  PermutationCount :: nat
  MinFoldSize :: nat
  FoldLenMultiplier :: rat
  LearningRate :: rat

text \<open>
  What can end a call early. The first group are the failed \<open>CB_ENSURE\<close> checks of the
  source, each named after what it checks. \<open>Interrupted\<close> is the exception of
  \<open>CheckInterrupted\<close> and \<open>OutOfRange\<close> the exception of
  \<open>TVector::at\<close>. The last three are places where the source reads a vector with
  \<open>operator[]\<close> or \<open>back()\<close>, or follows a pointer, without a check: C++ leaves such a
  read undefined when the element is not there, and the model says so instead of
  returning an arbitrary value.
\<close>

datatype error =
    DataProviderMissing
  | ProgressTrackerMissing
  | EmptyObjectsSlice
  | TooFewGroups nat nat
  | MinLearnSizeNotPositive
  | GrowRateTooSmall
  | NoPermutation
  | PlainFoldCount
  | CursorSliceMismatch
  | NoEstimationTask
  | Interrupted
  | OutOfRange
  | UncheckedIndex
  | UncheckedBack
  | NullPointer

section \<open>Helpers that the source calls\<close>

text \<open>
  Modelled from the spec: \<open>NCB::IntLog2\<close> (catboost/libs/helpers/math_utils.h) is not among
  the source files. The specification reads it as the integer part of the binary
  logarithm (the number of halvings), which is what this recursion computes.
\<close>

fun IntLog2 :: "nat \<Rightarrow> nat" where
  "IntLog2 n = (if n < 2 then 0 else Suc (IntLog2 (n div 2)))"

declare IntLog2.simps [simp del]

text \<open>
  Modelled from the spec: \<open>NHelpers::CeilDivide\<close> is not among the source files. The
  specification reads it as division rounded up; the divisor is meant to be positive.
\<close>

definition CeilDivide :: "nat \<Rightarrow> nat \<Rightarrow> nat" where
  "CeilDivide x y = (x + y - 1) div y"

section \<open>\<open>GetPermutationBlockSize\<close>\<close>

text \<open>
  The loop \<open>while (suggestedBlockSize * 128 > sampleCount) suggestedBlockSize >>= 1\<close>.
  The product is an unsigned 32-bit product.
\<close>

function GetPermutationBlockSize_loop :: "nat \<Rightarrow> nat \<Rightarrow> nat" where
  "GetPermutationBlockSize_loop sampleCount suggestedBlockSize =
     (if ui32 (suggestedBlockSize * 128) > sampleCount
      then GetPermutationBlockSize_loop sampleCount (suggestedBlockSize div 2)
      else suggestedBlockSize)"
  by pat_completeness auto
termination
proof (relation "measure (\<lambda>(sampleCount, suggestedBlockSize). suggestedBlockSize)")
  show "wf (measure (\<lambda>(sampleCount, suggestedBlockSize). suggestedBlockSize))"
    by simp
next
  fix sampleCount suggestedBlockSize :: nat
  assume "sampleCount < ui32 (suggestedBlockSize * 128)"
  then have "suggestedBlockSize \<noteq> 0"
    by (auto simp: ui32_def)
  then show "((sampleCount, suggestedBlockSize div 2), (sampleCount, suggestedBlockSize))
      \<in> measure (\<lambda>(sampleCount, suggestedBlockSize). suggestedBlockSize)"
    by simp
qed

declare GetPermutationBlockSize_loop.simps [simp del]

definition GetPermutationBlockSize :: "TBoostingOptions \<Rightarrow> nat \<Rightarrow> nat" where
  "GetPermutationBlockSize Config sampleCount =
     (let suggestedBlockSize = PermutationBlockSize Config in
      if sampleCount < 50000 then 1
      else if suggestedBlockSize > 1
        then GetPermutationBlockSize_loop sampleCount (ui32 (2 ^ IntLog2 suggestedBlockSize))
        else suggestedBlockSize)"

section \<open>\<open>CreateDataSet\<close>\<close>

text \<open>
  The data provider is a pointer that may be null: \<open>None\<close> here. Of the provider the
  function reads the object count and the objects order. The result is what the function
  hands to the data set builder: the permutation block size and the permutation count.
\<close>

record TTrainingDataProvider =
  ObjectCount :: nat
  Order :: EObjectsOrder

record TDataSetRequest =
  RequestedBlockSize :: nat
  RequestedPermutationCount :: nat

definition CreateDataSet ::
  "TBoostingOptions \<Rightarrow> TTrainingDataProvider option \<Rightarrow> error + TDataSetRequest" where
  "CreateDataSet Config DataProvider =
     (case DataProvider of
        None \<Rightarrow> Inl DataProviderMissing
      | Some provider \<Rightarrow>
          (let permutationBlockSize = GetPermutationBlockSize Config (ObjectCount provider);
               permutationCount =
                 (if Order provider = Ordered then 1 else PermutationCount Config)
           in Inr \<lparr>RequestedBlockSize = permutationBlockSize,
                   RequestedPermutationCount = permutationCount\<rparr>))"

section \<open>\<open>MinEstimationSize\<close>\<close>

definition MinEstimationSize :: "TBoostingOptions \<Rightarrow> nat \<Rightarrow> nat" where
  "MinEstimationSize Config docCount =
     (if docCount < 500 then 1
      else
        (let maxFolds = 18;
             folds = IntLog2 (CeilDivide docCount (MinFoldSize Config))
         in if folds \<ge> maxFolds then CeilDivide docCount (ui32 (2 ^ maxFolds))
            else min (MinFoldSize Config) (docCount div 50)))"

section \<open>The choice of the learn permutation\<close>

text \<open>
  From \<open>Fit\<close> and \<open>CreateState\<close>: \<open>estimationPermutation = permutationCount - 1\<close>, an
  unsigned subtraction, and
  \<open>learnPermutationCount = estimationPermutation ? permutationCount - 1 : 1\<close>.
\<close>

definition Fit_estimationPermutation :: "nat \<Rightarrow> nat" where
  "Fit_estimationPermutation permutationCount = ui32 (permutationCount + 2 ^ 32 - 1)"

definition Fit_learnPermutationCount :: "nat \<Rightarrow> nat" where
  "Fit_learnPermutationCount permutationCount =
     (let estimationPermutation = Fit_estimationPermutation permutationCount in
      if estimationPermutation \<noteq> 0 then ui32 (permutationCount + 2 ^ 32 - 1) else 1)"

text \<open>
  \<open>rnd\<close> is the value that \<open>Random.NextUniformL()\<close> returns for this iteration, an unsigned
  64-bit number; the remainder is narrowed to \<open>ui32\<close>.
\<close>

definition Fit_learnPermutationId :: "nat \<Rightarrow> nat \<Rightarrow> nat" where
  "Fit_learnPermutationId learnPermutations rnd =
     (if learnPermutations > 1 then ui32 (rnd mod (learnPermutations - 1)) else 0)"

section \<open>\<open>CreateFolds\<close>\<close>

record TSlice =
  Left :: nat
  Right :: nat

record TFold =
  EstimateSamples :: TSlice
  QualityEvaluateSamples :: TSlice

text \<open>
  \<open>IQueriesGrouping\<close> is an abstract interface whose declaration and implementations are
  not among the source files. \<open>CreateFolds\<close> calls three of its methods, so a grouping is
  the record of these three functions, and everything that is proved about \<open>CreateFolds\<close>
  names what it needs of them.
\<close>

record IQueriesGrouping =
  NextQueryOffsetForLine :: "nat \<Rightarrow> nat"
  GetQueryOffset :: "nat \<Rightarrow> nat"
  GetQueryCount :: nat

text \<open>
  \<open>CreateFolds\<close> multiplies a row count by the growth rate in \<open>double\<close> and converts the
  product back to \<open>ui32\<close>. A finite \<open>double\<close> is the rational number it stands for, and
  an operation in \<open>double\<close> gives the \<open>double\<close> nearest to the exact result, the one with
  the even significand when two are equally near (IEEE 754 binary64 in its default
  rounding mode).

  \<open>round_half_even\<close> is the nearest integer, the even one at a tie.
\<close>

definition round_half_even :: "rat \<Rightarrow> int" where
  "round_half_even x =
     (let f = \<lfloor>x\<rfloor>; r = x - of_int f
      in if r < 1 / 2 then f
         else if 1 / 2 < r then f + 1
         else if even f then f else f + 1)"

text \<open>
  \<open>binade x\<close> is the exponent \<open>e\<close> with \<open>2 ^ e \<le> x < 2 ^ (e + 1)\<close>, for a positive \<open>x\<close>.
\<close>

definition binade :: "rat \<Rightarrow> int" where
  "binade x = (if 1 \<le> x then bitlen \<lfloor>x\<rfloor> - 1 else - bitlen (\<lceil>1 / x\<rceil> - 1))"

text \<open>
  The nearest \<open>double\<close>: a \<open>double\<close> has a significand of 53 bits, so the doubles of the
  binade \<open>e\<close> are the multiples of \<open>2 ^ (e - 52)\<close>, and below \<open>2 ^ - 1022\<close> (the subnormal
  numbers) the multiples of \<open>2 ^ - 1074\<close>. A result of \<open>2 ^ 1024\<close> or more is infinite in
  the source; it is a rational here, and \<open>double_to_ui32\<close> below treats both alike.
\<close>

definition nearest_double :: "rat \<Rightarrow> rat" where
  "nearest_double x =
     (if x = 0 then 0
      else
        (let ulp = 2 powi (max (binade \<bar>x\<bar>) (- 1022) - 52)
         in sgn x * of_int (round_half_even (\<bar>x\<bar> / ulp)) * ulp))"

text \<open>
  \<open>static_cast<ui32>\<close> of a \<open>double\<close> drops the fraction. C++ leaves the conversion
  undefined when the result is not a \<open>ui32\<close>; compiled for x86-64 it is the instruction
  \<open>cvttsd2si\<close> with a 64-bit result of which the low 32 bits are kept, and that result is
  \<open>- 2 ^ 63\<close>, with low bits 0, for every value that is not a signed 64-bit integer. This
  is what the model does.
\<close>

definition double_to_ui32 :: "rat \<Rightarrow> nat" where
  "double_to_ui32 x =
     (let t = (if 0 \<le> x then \<lfloor>x\<rfloor> else \<lceil>x\<rceil>)
      in if \<bar>t\<bar> < 2 ^ 63 then nat (t mod 2 ^ 32) else 0)"

text \<open>
  \<open>static_cast<ui32>(n * growthRate)\<close>, for a \<open>ui32\<close> \<open>n\<close>. The conversion of \<open>n\<close> to
  \<open>double\<close> is exact, the product is rounded.
\<close>

definition scaled :: "nat \<Rightarrow> rat \<Rightarrow> nat" where
  "scaled n growthRate = double_to_ui32 (nearest_double (of_nat n * growthRate))"

text \<open>The first statements of \<open>CreateFolds\<close>, up to the checks.\<close>

definition CreateFolds_minEstimationSize ::
  "TBoostingOptions \<Rightarrow> nat \<Rightarrow> nat \<Rightarrow> IQueriesGrouping \<Rightarrow> nat" where
  "CreateFolds_minEstimationSize Config devCount sampleCount samplesGrouping =
     (let minEstimationSize =
            NextQueryOffsetForLine samplesGrouping (MinEstimationSize Config sampleCount)
      in if devCount > 1
         then max minEstimationSize
                (GetQueryOffset samplesGrouping
                   (min (ui32 (16 * devCount)) (GetQueryCount samplesGrouping div 2)))
         else minEstimationSize)"

text \<open>
  The loop \<open>while (folds.back().QualityEvaluateSamples.Right < sampleCount)\<close>. Nothing in
  the loop bounds the number of its rounds, so it is a partial function: \<open>None\<close> means
  that the loop does not come to an end. \<open>folds\<close> is never empty when the loop is entered.
\<close>

partial_function (option) CreateFolds_loop ::
  "IQueriesGrouping \<Rightarrow> nat \<Rightarrow> rat \<Rightarrow> TFold list \<Rightarrow> TFold list option" where
  "CreateFolds_loop samplesGrouping sampleCount growthRate folds =
     (if Right (QualityEvaluateSamples (last folds)) < sampleCount
      then
        (let learnSlice = \<lparr>Left = 0, Right = Right (QualityEvaluateSamples (last folds))\<rparr>;
             end = NextQueryOffsetForLine samplesGrouping
                     (min (scaled (Right (QualityEvaluateSamples (last folds))) growthRate)
                          sampleCount);
             testSlice = \<lparr>Left = Right (QualityEvaluateSamples (last folds)), Right = end\<rparr>
         in CreateFolds_loop samplesGrouping sampleCount growthRate
              (folds @ [\<lparr>EstimateSamples = learnSlice, QualityEvaluateSamples = testSlice\<rparr>]))
      else Some folds)"

text \<open>
  \<open>devCount\<close> is \<open>NCudaLib::GetCudaManager().GetDeviceCount()\<close>. The result is \<open>None\<close> when
  the function does not return, \<open>Some (Inl e)\<close> when a \<open>CB_ENSURE\<close> throws, and
  \<open>Some (Inr folds)\<close> when it returns \<open>folds\<close>.
\<close>

definition CreateFolds ::
  "TBoostingOptions \<Rightarrow> nat \<Rightarrow> nat \<Rightarrow> rat \<Rightarrow> IQueriesGrouping \<Rightarrow> (error + TFold list) option" where
  "CreateFolds Config devCount sampleCount growthRate samplesGrouping =
     (let minEstimationSize =
            CreateFolds_minEstimationSize Config devCount sampleCount samplesGrouping
      in if \<not> GetQueryCount samplesGrouping \<ge> ui32 (4 * devCount)
           then Some (Inl (TooFewGroups (GetQueryCount samplesGrouping) devCount))
         else if minEstimationSize = 0 then Some (Inl MinLearnSizeNotPositive)
         else if \<not> growthRate > 1 then Some (Inl GrowRateTooSmall)
         else if BoostingType Config = Plain
           then Some (Inr [\<lparr>EstimateSamples = \<lparr>Left = 0, Right = sampleCount\<rparr>,
                            QualityEvaluateSamples = \<lparr>Left = 0, Right = sampleCount\<rparr>\<rparr>])
         else
           (let testEnd = NextQueryOffsetForLine samplesGrouping
                            (min (scaled minEstimationSize growthRate) sampleCount)
            in map_option Inr
                 (CreateFolds_loop samplesGrouping sampleCount growthRate
                    [\<lparr>EstimateSamples = \<lparr>Left = 0, Right = minEstimationSize\<rparr>,
                      QualityEvaluateSamples = \<lparr>Left = minEstimationSize, Right = testEnd\<rparr>\<rparr>])))"

section \<open>Errors as values\<close>

fun andThen :: "error + 'a \<Rightarrow> ('a \<Rightarrow> error + 'b) \<Rightarrow> error + 'b" where
  "andThen (Inl e) f = Inl e"
| "andThen (Inr x) f = f x"

text \<open>The results of a loop over a list, in order; the first exception ends the loop.\<close>

fun collect :: "(error + 'a) list \<Rightarrow> error + 'a list" where
  "collect [] = Inr []"
| "collect (r # rs) = andThen r (\<lambda>x. andThen (collect rs) (\<lambda>xs. Inr (x # xs)))"

text \<open>\<open>v[i]\<close> on a \<open>TVector\<close>.\<close>

definition index :: "'a list \<Rightarrow> nat \<Rightarrow> error + 'a" where
  "index xs i = (if i < length xs then Inr (xs ! i) else Inl UncheckedIndex)"

section \<open>Cursors and the per-fold storage\<close>

text \<open>
  Modelled from the spec: the device buffers (\<open>TMirrorBuffer\<close>, \<open>TMirrorMapping\<close>) belong to
  the buffer layer, which is not among the source files. A buffer is the size of the
  mirror mapping it was created with, together with its contents, which stay abstract
  (\<open>'c\<close>). The object slice that a mirror mapping of size \<open>n\<close> declares is \<open>(0, n)\<close>.
\<close>

record 'c TVec =
  MappingSize :: nat
  Contents :: 'c

definition GetObjectsSlice :: "'c TVec \<Rightarrow> TSlice" where
  "GetObjectsSlice vec = \<lparr>Left = 0, Right = MappingSize vec\<rparr>"

record 'd TFoldAndPermutationStorage =
  FoldData :: "'d list list"
  Estimation :: 'd

text \<open>\<open>Get\<close> reads with \<open>at\<close>, which throws when an index is out of range.\<close>

definition Get :: "'d TFoldAndPermutationStorage \<Rightarrow> nat \<Rightarrow> nat \<Rightarrow> error + 'd" where
  "Get storage permutationId foldId =
     (if permutationId < length (FoldData storage)
         \<and> foldId < length (FoldData storage ! permutationId)
      then Inr (FoldData storage ! permutationId ! foldId)
      else Inl OutOfRange)"

definition Foreach ::
  "('d \<Rightarrow> 'd) \<Rightarrow> 'd TFoldAndPermutationStorage \<Rightarrow> 'd TFoldAndPermutationStorage" where
  "Foreach func storage =
     \<lparr>FoldData = map (map func) (FoldData storage), Estimation = func (Estimation storage)\<rparr>"

text \<open>Writing one entry of the storage: \<open>storage.FoldData[permutationId][foldId] = value\<close>.\<close>

definition Put ::
  "nat \<Rightarrow> nat \<Rightarrow> 'd \<Rightarrow> 'd TFoldAndPermutationStorage \<Rightarrow> 'd TFoldAndPermutationStorage" where
  "Put permutationId foldId v storage =
     storage\<lparr>FoldData :=
       (FoldData storage)[permutationId := (FoldData storage ! permutationId)[foldId := v]]\<rparr>"

section \<open>The weak learner and the tasks it is given\<close>

text \<open>What the structure search of one iteration is given.\<close>

datatype 'c TSearchTarget =
    Shifted "'c TVec"
  | LearnValidate TSlice TSlice "'c TVec"

datatype TModelDst = FoldModel nat nat | EstimationModel

text \<open>
  One call of \<open>AddEstimationTask\<close>: the permutation whose target and data set are used, the
  slice of the target, the cursor that the task reads, and the model that the estimator
  writes.
\<close>

record 'c TEstimationTask =
  TaskPermutation :: nat
  TaskSlice :: TSlice
  TaskCursor :: "'c TVec"
  TaskDst :: TModelDst

datatype TDataSetView =
    TestDataSet
  | DataSetForPermutation nat
  | DataSetSlice nat TSlice

text \<open>
  The weak learner (\<open>TWeakLearner_\<close>) is a template parameter of \<open>TDynamicBoosting\<close>, so it is
  a parameter here: the structure search (given the random draw, the learn permutation,
  the iteration and the targets), the model that a structure starts with, the leaves
  estimator (the model that \<open>Estimate\<close> writes for the \<open>i\<close>-th of the tasks added), the
  rescaling of a model and the addition of a model to the contents of a cursor.
\<close>

record ('s, 'm, 'c) TWeakLearner =
  SearchStructure :: "nat \<Rightarrow> nat \<Rightarrow> nat \<Rightarrow> 'c TSearchTarget list \<Rightarrow> 's"
  DefaultModel :: "'s \<Rightarrow> 'm"
  EstimateLeaves :: "'s \<Rightarrow> 'c TEstimationTask list \<Rightarrow> nat \<Rightarrow> 'm"
  Rescale :: "rat \<Rightarrow> 'm \<Rightarrow> 'm"
  AddModelValue :: "'s \<Rightarrow> 'm \<Rightarrow> TDataSetView \<Rightarrow> 'c \<Rightarrow> 'c"

section \<open>One iteration of \<open>Fit\<close>\<close>

text \<open>
  What \<open>Fit\<close> changes through its pointer arguments: the fold cursors and the estimation
  cursor, the test cursor and the best test cursor (null pointers are \<open>None\<close>), and the
  result model, an additive model to which \<open>AddWeakModel\<close> appends.
\<close>

record ('m, 'c) TFitState =
  Cursor :: "'c TVec TFoldAndPermutationStorage"
  TestCursor :: "'c TVec option"
  BestTestCursor :: "'c TVec option"
  Result :: "'m list"

text \<open>The targets of the structure search, from the cursors of the learn permutation.\<close>

definition Fit_searchTargets ::
  "TBoostingOptions \<Rightarrow> 'c TVec TFoldAndPermutationStorage \<Rightarrow> nat \<Rightarrow> TFold list
     \<Rightarrow> error + 'c TSearchTarget list" where
  "Fit_searchTargets Config cursor learnPermutationId taskFolds =
     (if BoostingType Config = Plain
      then
        (if length taskFolds \<noteq> 1 then Inl PlainFoldCount
         else andThen (Get cursor learnPermutationId 0) (\<lambda>c. Inr [Shifted c]))
      else
        collect (map (\<lambda>foldId.
            andThen (Get cursor learnPermutationId foldId) (\<lambda>c.
              Inr (LearnValidate (EstimateSamples (taskFolds ! foldId))
                     (QualityEvaluateSamples (taskFolds ! foldId)) c)))
          [0..<length taskFolds]))"

text \<open>
  \<open>models.FoldData.resize(learnPermutationCount)\<close>, then one default model for every fold
  of every learn permutation, and \<open>models.Estimation = defaultModel\<close>.
\<close>

definition Fit_defaultModels ::
  "'m \<Rightarrow> nat \<Rightarrow> TFold list list \<Rightarrow> error + 'm TFoldAndPermutationStorage" where
  "Fit_defaultModels defaultModel learnPermutations permutationFolds =
     andThen
       (collect (map (\<lambda>permutation.
            andThen (index permutationFolds permutation) (\<lambda>folds.
              Inr (replicate (length folds) defaultModel)))
          [0..<learnPermutations]))
       (\<lambda>foldData. Inr \<lparr>FoldData = foldData, Estimation = defaultModel\<rparr>)"

text \<open>
  The tasks that are added to the estimator, in the order of the source: one for every
  fold of every learn permutation, then the task of the estimation permutation, unless the
  boosting type is \<open>Plain\<close> and the estimation permutation is permutation 0.
  \<open>allSlice\<close> is the object slice of the data set of the estimation permutation.
\<close>

definition Fit_estimationTasks ::
  "TBoostingOptions \<Rightarrow> nat \<Rightarrow> TSlice \<Rightarrow> TFold list list \<Rightarrow> 'c TVec TFoldAndPermutationStorage
     \<Rightarrow> error + 'c TEstimationTask list" where
  "Fit_estimationTasks Config permutationCount allSlice permutationFolds cursor =
     (let estimationPermutation = Fit_estimationPermutation permutationCount in
      andThen
        (collect (map (\<lambda>permutation.
             andThen (index permutationFolds permutation) (\<lambda>folds.
               collect (map (\<lambda>foldId.
                   andThen (Get cursor permutation foldId) (\<lambda>c.
                     Inr \<lparr>TaskPermutation = permutation,
                          TaskSlice = EstimateSamples (folds ! foldId),
                          TaskCursor = c,
                          TaskDst = FoldModel permutation foldId\<rparr>))
                 [0..<length folds])))
           [0..<Fit_learnPermutationCount permutationCount]))
        (\<lambda>foldTasks.
           Inr (concat foldTasks @
                (if \<not> (BoostingType Config = Plain \<and> estimationPermutation = 0)
                 then [\<lparr>TaskPermutation = estimationPermutation,
                         TaskSlice = allSlice,
                         TaskCursor = Estimation cursor,
                         TaskDst = EstimationModel\<rparr>]
                 else []))))"

text \<open>\<open>estimator.Estimate\<close>: every task's destination receives the model estimated for it.\<close>

fun writeModel ::
  "TModelDst \<Rightarrow> 'm \<Rightarrow> 'm TFoldAndPermutationStorage \<Rightarrow> 'm TFoldAndPermutationStorage" where
  "writeModel (FoldModel permutation foldId) m models = Put permutation foldId m models"
| "writeModel EstimationModel m models = models\<lparr>Estimation := m\<rparr>"

definition Fit_estimate ::
  "('s, 'm, 'c) TWeakLearner \<Rightarrow> 's \<Rightarrow> 'c TEstimationTask list
     \<Rightarrow> 'm TFoldAndPermutationStorage \<Rightarrow> 'm TFoldAndPermutationStorage" where
  "Fit_estimate Weak weakModelStructure tasks models =
     fold (\<lambda>i. writeModel (TaskDst (tasks ! i)) (EstimateLeaves Weak weakModelStructure tasks i))
       [0..<length tasks] models"

text \<open>
  The fallback after the rescaling:
  \<open>if (Plain && estimationPermutation == 0) models.Estimation = models.FoldData[0][0]\<close>.
\<close>

definition Fit_fallback ::
  "TBoostingOptions \<Rightarrow> nat \<Rightarrow> 'm TFoldAndPermutationStorage
     \<Rightarrow> error + 'm TFoldAndPermutationStorage" where
  "Fit_fallback Config estimationPermutation models =
     (if BoostingType Config = Plain \<and> estimationPermutation = 0
      then andThen (index (FoldData models) 0) (\<lambda>permutationModels.
           andThen (index permutationModels 0) (\<lambda>m.
             Inr (models\<lparr>Estimation := m\<rparr>)))
      else Inr models)"

text \<open>
  The update of one fold cursor, with the check that precedes it:
  \<open>CB_ENSURE(cursor.Get(permutation, foldId).GetObjectsSlice() == allSlice)\<close>. The model
  that is added is \<open>permutationModels[foldId]\<close>; the update changes the contents of the
  cursor and leaves its mapping as it is.
\<close>

definition Fit_foldCursorUpdate ::
  "('s, 'm, 'c) TWeakLearner \<Rightarrow> 's \<Rightarrow> 'm list \<Rightarrow> 'c TVec TFoldAndPermutationStorage
     \<Rightarrow> nat \<Rightarrow> TFold list \<Rightarrow> nat \<Rightarrow> error + 'c TVec" where
  "Fit_foldCursorUpdate Weak weakModelStructure permutationModels cursor permutation folds foldId =
     (let fold = folds ! foldId;
          allSlice = \<lparr>Left = 0, Right = Right (QualityEvaluateSamples fold)\<rparr>
      in andThen (Get cursor permutation foldId) (\<lambda>c.
           if GetObjectsSlice c \<noteq> allSlice then Inl CursorSliceMismatch
           else andThen (index permutationModels foldId) (\<lambda>m.
             Inr (c\<lparr>Contents :=
                      AddModelValue Weak weakModelStructure m
                        (DataSetSlice permutation allSlice) (Contents c)\<rparr>))))"

text \<open>The two loops around it: the new fold cursors, one row for every learn permutation.\<close>

definition Fit_foldCursorUpdates ::
  "('s, 'm, 'c) TWeakLearner \<Rightarrow> 's \<Rightarrow> nat \<Rightarrow> TFold list list
     \<Rightarrow> 'm TFoldAndPermutationStorage \<Rightarrow> 'c TVec TFoldAndPermutationStorage
     \<Rightarrow> error + 'c TVec list list" where
  "Fit_foldCursorUpdates Weak weakModelStructure learnPermutations permutationFolds models cursor =
     collect (map (\<lambda>permutation.
         andThen (index (FoldData models) permutation) (\<lambda>permutationModels.
         andThen (index permutationFolds permutation) (\<lambda>folds.
           collect (map (Fit_foldCursorUpdate Weak weakModelStructure permutationModels cursor
                           permutation folds)
                     [0..<length folds]))))
       [0..<learnPermutations])"

text \<open>\<open>addModelValue.Proceed()\<close> writes the rows into the fold cursors they came from.\<close>

definition Fit_storeCursors ::
  "'c TVec list list \<Rightarrow> 'c TVec TFoldAndPermutationStorage
     \<Rightarrow> 'c TVec TFoldAndPermutationStorage" where
  "Fit_storeCursors rows cursor =
     fold (\<lambda>permutation.
         fold (\<lambda>foldId. Put permutation foldId (rows ! permutation ! foldId))
           [0..<length (rows ! permutation)])
       [0..<length rows] cursor"

text \<open>
  The test cursor is updated when there is a test data set; \<open>testCursor\<close> is a pointer
  that the source follows without a check.
\<close>

definition Fit_testCursorUpdate ::
  "('s, 'm, 'c) TWeakLearner \<Rightarrow> 's \<Rightarrow> bool \<Rightarrow> 'm \<Rightarrow> 'c TVec option
     \<Rightarrow> error + 'c TVec option" where
  "Fit_testCursorUpdate Weak weakModelStructure hasTestDataSet m testCursor =
     (if hasTestDataSet
      then (case testCursor of
              None \<Rightarrow> Inl NullPointer
            | Some c \<Rightarrow>
                Inr (Some (c\<lparr>Contents :=
                   AddModelValue Weak weakModelStructure m TestDataSet (Contents c)\<rparr>)))
      else Inr testCursor)"

text \<open>
  The first half of the body of the loop of \<open>Fit\<close>: the choice of the learn permutation,
  the structure search, the default models, the estimation tasks, \<open>Estimate\<close> and the
  rescaling of every model by the learning rate. The result is the structure, the tasks
  that were given to the estimator and the rescaled models.
  \<open>permutationCount\<close> is at least 1 here (\<open>Fit\<close> checks it before the loop). \<open>allSlice\<close> is
  the object slice of the data set of the estimation permutation, \<open>iteration\<close> the number
  of the iteration and \<open>rnd\<close> the random number drawn for the choice of the permutation.
\<close>

definition Fit_rescaledModels ::
  "('s, 'm, 'c) TWeakLearner \<Rightarrow> TBoostingOptions \<Rightarrow> nat \<Rightarrow> TSlice \<Rightarrow> TFold list list
     \<Rightarrow> nat \<Rightarrow> nat \<Rightarrow> 'c TVec TFoldAndPermutationStorage
     \<Rightarrow> error + 's \<times> 'c TEstimationTask list \<times> 'm TFoldAndPermutationStorage" where
  "Fit_rescaledModels Weak Config permutationCount allSlice permutationFolds iteration rnd
       cursor =
     (let learnPermutations = Fit_learnPermutationCount permutationCount;
          step = LearningRate Config;
          learnPermutationId = Fit_learnPermutationId learnPermutations rnd
      in
      andThen (index permutationFolds learnPermutationId) (\<lambda>taskFolds.
      andThen (Fit_searchTargets Config cursor learnPermutationId taskFolds) (\<lambda>targets.
      let weakModelStructure = SearchStructure Weak rnd learnPermutationId iteration targets in
      andThen (Fit_defaultModels (DefaultModel Weak weakModelStructure) learnPermutations
                 permutationFolds) (\<lambda>defaultModels.
      andThen (Fit_estimationTasks Config permutationCount allSlice permutationFolds cursor)
        (\<lambda>tasks.
      let estimated = Fit_estimate Weak weakModelStructure tasks defaultModels
      in Inr (weakModelStructure, tasks, Foreach (Rescale Weak step) estimated))))))"

text \<open>
  The body of the loop of \<open>Fit\<close>, up to \<open>result->AddWeakModel(models.Estimation)\<close>: after
  the rescaling come the fallback, the updates of the test cursor, of the estimation
  cursor and of the fold cursors, and the new weak model of the result.
\<close>

definition Fit_iteration ::
  "('s, 'm, 'c) TWeakLearner \<Rightarrow> TBoostingOptions \<Rightarrow> nat \<Rightarrow> bool \<Rightarrow> TSlice \<Rightarrow> TFold list list
     \<Rightarrow> nat \<Rightarrow> nat \<Rightarrow> ('m, 'c, 'z) TFitState_scheme
     \<Rightarrow> error + ('m, 'c, 'z) TFitState_scheme" where
  "Fit_iteration Weak Config permutationCount hasTestDataSet allSlice permutationFolds
       iteration rnd st =
     (let estimationPermutation = Fit_estimationPermutation permutationCount;
          learnPermutations = Fit_learnPermutationCount permutationCount;
          cursor = Cursor st
      in
      andThen (Fit_rescaledModels Weak Config permutationCount allSlice permutationFolds
                 iteration rnd cursor) (\<lambda>(weakModelStructure, tasks, rescaled).
      andThen (Fit_fallback Config estimationPermutation rescaled) (\<lambda>models.
      andThen (Fit_testCursorUpdate Weak weakModelStructure hasTestDataSet (Estimation models)
                 (TestCursor st)) (\<lambda>testCursor.
      let estimationCursor =
            (Estimation cursor)\<lparr>Contents :=
               AddModelValue Weak weakModelStructure (Estimation models)
                 (DataSetForPermutation estimationPermutation)
                 (Contents (Estimation cursor))\<rparr>
      in
      andThen (Fit_foldCursorUpdates Weak weakModelStructure learnPermutations permutationFolds
                 models cursor) (\<lambda>rows.
        Inr (st\<lparr>Cursor := Fit_storeCursors rows (cursor\<lparr>Estimation := estimationCursor\<rparr>),
                TestCursor := testCursor,
                Result := Result st @ [Estimation models]\<rparr>))))))"

section \<open>\<open>CreateState\<close>\<close>

text \<open>
  Modelled from the spec: the data set holder and its builder are not among the source
  files. Of the holder, \<open>CreateState\<close> and \<open>CreateFolds\<close> use the number of permutations
  and the samples grouping of the data set of each permutation, so the holder is the list
  of these groupings; the builder is a parameter.
\<close>

record TFeatureParallelDataSetsHolder =
  SamplesGrouping :: "IQueriesGrouping list"

text \<open>
  \<open>TBoostingState\<close>, together with the result model that \<open>Run\<close> creates next to it.
\<close>

record ('m, 'c) TBoostingState = "('m, 'c) TFitState" +
  DataSets :: TFeatureParallelDataSetsHolder
  PermutationFolds :: "TFold list list"

text \<open>
  The cursors of one learn permutation: for every fold a buffer on a mirror mapping of
  size \<open>folds[fold].QualityEvaluateSamples.Right\<close>, filled from the baseline.
  \<open>baseline\<close> gives the contents written into a buffer of a data set view and a size.
\<close>

definition CreateState_foldCursors ::
  "(TDataSetView \<Rightarrow> nat \<Rightarrow> 'c) \<Rightarrow> nat \<Rightarrow> TFold list \<Rightarrow> 'c TVec list" where
  "CreateState_foldCursors baseline i folds =
     map (\<lambda>fold.
        \<lparr>MappingSize = Right (QualityEvaluateSamples fold),
          Contents = baseline (DataSetForPermutation i)
                       (Right (QualityEvaluateSamples fold))\<rparr>)
       folds"

text \<open>
  The loop over the learn permutations, \<open>n\<close> of them from permutation \<open>i\<close> on: the folds
  and the fold cursors of each. \<open>GetPermutation(i)\<close> and \<open>GetDataSetForPermutation(i)\<close>
  are reads without a check.
\<close>

fun CreateState_permutations ::
  "TBoostingOptions \<Rightarrow> nat \<Rightarrow> nat \<Rightarrow> TFeatureParallelDataSetsHolder
     \<Rightarrow> (TDataSetView \<Rightarrow> nat \<Rightarrow> 'c) \<Rightarrow> nat \<Rightarrow> nat
     \<Rightarrow> (error + (TFold list \<times> 'c TVec list) list) option" where
  "CreateState_permutations Config devCount objectCount dataSets baseline i 0 = Some (Inr [])"
| "CreateState_permutations Config devCount objectCount dataSets baseline i (Suc n) =
     (case index (SamplesGrouping dataSets) i of
        Inl e \<Rightarrow> Some (Inl e)
      | Inr samplesGrouping \<Rightarrow>
          (case CreateFolds Config devCount objectCount (FoldLenMultiplier Config)
                  samplesGrouping of
             None \<Rightarrow> None
           | Some (Inl e) \<Rightarrow> Some (Inl e)
           | Some (Inr folds) \<Rightarrow>
               (case CreateState_permutations Config devCount objectCount dataSets baseline
                       (Suc i) n of
                  None \<Rightarrow> None
                | Some (Inl e) \<Rightarrow> Some (Inl e)
                | Some (Inr rest) \<Rightarrow>
                    Some (Inr ((folds, CreateState_foldCursors baseline i folds) # rest)))))"

text \<open>
  \<open>CreateState\<close>. \<open>BuildDataSet\<close> is the builder, \<open>TestDataProvider\<close> the optional test
  provider. \<open>CreateTarget\<close> checks that the slice of a data set is not empty. The result
  is \<open>None\<close> when a call of \<open>CreateFolds\<close> does not return.
\<close>

definition CreateState ::
  "TBoostingOptions \<Rightarrow> nat \<Rightarrow> (TDataSetRequest \<Rightarrow> TFeatureParallelDataSetsHolder)
     \<Rightarrow> TTrainingDataProvider option \<Rightarrow> TTrainingDataProvider option
     \<Rightarrow> (TDataSetView \<Rightarrow> nat \<Rightarrow> 'c) \<Rightarrow> (error + ('m, 'c) TBoostingState) option" where
  "CreateState Config devCount BuildDataSet DataProvider TestDataProvider baseline =
     (case CreateDataSet Config DataProvider of
        Inl e \<Rightarrow> Some (Inl e)
      | Inr request \<Rightarrow>
          (let dataSets = BuildDataSet request;
               permutationsCount = length (SamplesGrouping dataSets);
               objectCount = (case DataProvider of None \<Rightarrow> 0 | Some provider \<Rightarrow> ObjectCount provider);
               estimationPermutation = Fit_estimationPermutation permutationsCount;
               learnPermutations = Fit_learnPermutationCount permutationsCount
           in if permutationsCount > 0 \<and> objectCount = 0 then Some (Inl EmptyObjectsSlice)
              else if (case TestDataProvider of None \<Rightarrow> False
                       | Some provider \<Rightarrow> ObjectCount provider = 0)
                then Some (Inl EmptyObjectsSlice)
              else
                (case CreateState_permutations Config devCount objectCount dataSets baseline
                        0 learnPermutations of
                   None \<Rightarrow> None
                 | Some (Inl e) \<Rightarrow> Some (Inl e)
                 | Some (Inr permutations) \<Rightarrow>
                     (if \<not> estimationPermutation < permutationsCount
                      then Some (Inl UncheckedIndex)
                      else Some (Inr
                        \<lparr>Cursor =
                           \<lparr>FoldData = map snd permutations,
                             Estimation =
                               \<lparr>MappingSize = objectCount,
                                 Contents = baseline (DataSetForPermutation estimationPermutation)
                                              objectCount\<rparr>\<rparr>,
                          TestCursor =
                            map_option (\<lambda>provider.
                                \<lparr>MappingSize = ObjectCount provider,
                                  Contents = baseline TestDataSet (ObjectCount provider)\<rparr>)
                              TestDataProvider,
                          BestTestCursor = None,
                          Result = [],
                          DataSets = dataSets,
                          PermutationFolds = map fst permutations\<rparr>)))))"

section \<open>Progress, snapshots and the loop of \<open>Fit\<close>\<close>

text \<open>
  Modelled from the spec: \<open>MakeProgress\<close>, \<open>Save\<close>, \<open>Load\<close>, \<open>SaveCudaBuffer\<close>,
  \<open>LoadCudaBuffer\<close> and \<open>WriteProgressToGpu\<close> (dynamic_boosting_progress.h) are not among the
  source files. The specification describes the snapshot as the serialized result model
  and all cursors, followed optionally by a dump of the best test cursor, from which a run
  is resumed exactly. So the progress is the record of the result model, the fold and
  estimation cursors and the test cursor; saving followed by loading gives the same
  record back, and a snapshot is that record with the optional dump.
\<close>

record ('m, 'c) TDynamicBoostingProgress =
  ProgressModel :: "'m list"
  ProgressCursor :: "'c TVec TFoldAndPermutationStorage"
  ProgressTestCursor :: "'c TVec option"

record ('m, 'c) TSnapshot =
  Progress :: "('m, 'c) TDynamicBoostingProgress"
  BestTestDump :: "'c TVec option"

definition MakeProgress ::
  "'m list \<Rightarrow> 'c TVec TFoldAndPermutationStorage \<Rightarrow> 'c TVec option
     \<Rightarrow> ('m, 'c) TDynamicBoostingProgress" where
  "MakeProgress result cursor testCursor =
     \<lparr>ProgressModel = result, ProgressCursor = cursor, ProgressTestCursor = testCursor\<rparr>"

text \<open>The lambda \<open>snapshotSaver\<close> of \<open>Fit\<close>.\<close>

definition snapshotSaver :: "('m, 'c, 'z) TFitState_scheme \<Rightarrow> ('m, 'c) TSnapshot" where
  "snapshotSaver st =
     \<lparr>Progress = MakeProgress (Result st) (Cursor st) (TestCursor st),
       BestTestDump = BestTestCursor st\<rparr>"

text \<open>
  The lambda that \<open>Run\<close> hands to \<open>MaybeRestoreFromSnapshot\<close>: it loads the progress, loads
  the best test cursor when the state has one, and writes the progress into the result
  model, the cursors and, when there is a test provider, the test cursor.
\<close>

definition snapshotLoader ::
  "bool \<Rightarrow> ('m, 'c) TSnapshot \<Rightarrow> ('m, 'c, 'z) TFitState_scheme
     \<Rightarrow> ('m, 'c, 'z) TFitState_scheme" where
  "snapshotLoader hasTestDataProvider snapshot st =
     st\<lparr>Result := ProgressModel (Progress snapshot),
        Cursor := ProgressCursor (Progress snapshot),
        TestCursor :=
          (if hasTestDataProvider then ProgressTestCursor (Progress snapshot)
           else TestCursor st),
        BestTestCursor :=
          (if BestTestCursor st \<noteq> None then BestTestDump snapshot else BestTestCursor st)\<rparr>"

text \<open>
  Modelled from the spec: \<open>TBoostingProgressTracker\<close> (boosting_progress_tracker.h) is not
  among the source files. The specification says that it decides when to stop and when to
  persist a snapshot, and that both decisions are external to the loop. Here the tracker
  is the number of the current iteration, the iteration budget and the snapshot it has
  persisted (with the iteration at which it was taken); the decisions that depend on the
  metrics, on the snapshot schedule and on the interruption signal are functions of the
  iteration number, given from outside.
\<close>

record ('m, 'c) TBoostingProgressTracker =
  Iteration :: nat
  IterationCount :: nat
  Snapshot :: "(nat \<times> ('m, 'c) TSnapshot) option"

record TExternalDecisions =
  OverfittingDetected :: "nat \<Rightarrow> bool"
  SnapshotDue :: "nat \<Rightarrow> bool"
  InterruptRaised :: "nat \<Rightarrow> bool"
  BestTestIteration :: "nat \<Rightarrow> bool"

definition ShouldStop ::
  "TExternalDecisions \<Rightarrow> ('m, 'c) TBoostingProgressTracker \<Rightarrow> bool" where
  "ShouldStop decisions tracker =
     (Iteration tracker \<ge> IterationCount tracker \<or> OverfittingDetected decisions (Iteration tracker))"

definition MaybeSaveSnapshot ::
  "TExternalDecisions \<Rightarrow> ('m, 'c) TSnapshot \<Rightarrow> ('m, 'c) TBoostingProgressTracker
     \<Rightarrow> ('m, 'c) TBoostingProgressTracker" where
  "MaybeSaveSnapshot decisions snapshot tracker =
     (if SnapshotDue decisions (Iteration tracker)
      then tracker\<lparr>Snapshot := Some (Iteration tracker, snapshot)\<rparr>
      else tracker)"

definition MaybeRestoreFromSnapshot ::
  "(('m, 'c) TSnapshot \<Rightarrow> 'st \<Rightarrow> 'st) \<Rightarrow> ('m, 'c) TBoostingProgressTracker \<Rightarrow> 'st
     \<Rightarrow> ('m, 'c) TBoostingProgressTracker \<times> 'st" where
  "MaybeRestoreFromSnapshot loader tracker st =
     (case Snapshot tracker of
        None \<Rightarrow> (tracker, st)
      | Some (iteration, snapshot) \<Rightarrow> (tracker\<lparr>Iteration := iteration\<rparr>, loader snapshot st))"

text \<open>
  The end of the loop body: \<open>if (IsBestTestIteration() && bestTestCursor)\<close> the test cursor
  is copied into the best test cursor, after \<open>Y_VERIFY(testCursor)\<close>.
\<close>

definition Fit_bestTestCursor ::
  "bool \<Rightarrow> ('m, 'c, 'z) TFitState_scheme \<Rightarrow> error + ('m, 'c, 'z) TFitState_scheme" where
  "Fit_bestTestCursor isBestTestIteration st =
     (if isBestTestIteration \<and> BestTestCursor st \<noteq> None
      then (case TestCursor st of
              None \<Rightarrow> Inl NullPointer
            | Some c \<Rightarrow> Inr (st\<lparr>BestTestCursor := Some c\<rparr>))
      else Inr st)"

text \<open>
  The loop \<open>while (!progressTracker->ShouldStop())\<close>. The first argument is the number of
  iterations that the budget of the tracker still allows, so the loop is a recursion on
  it. The result is how the loop ends (an exception, or the state on return), together
  with the tracker, which keeps the snapshot it has persisted also when the loop throws.
  \<open>rnd\<close> gives the random number drawn in each iteration.
\<close>

fun Fit_loop ::
  "('s, 'm, 'c) TWeakLearner \<Rightarrow> TBoostingOptions \<Rightarrow> nat \<Rightarrow> bool \<Rightarrow> TSlice \<Rightarrow> TFold list list
     \<Rightarrow> TExternalDecisions \<Rightarrow> (nat \<Rightarrow> nat) \<Rightarrow> nat
     \<Rightarrow> ('m, 'c) TBoostingProgressTracker \<Rightarrow> ('m, 'c, 'z) TFitState_scheme
     \<Rightarrow> (error + ('m, 'c, 'z) TFitState_scheme) \<times> ('m, 'c) TBoostingProgressTracker" where
  "Fit_loop Weak Config permutationCount hasTestDataSet allSlice permutationFolds
       decisions rnd 0 tracker st = (Inr st, tracker)"
| "Fit_loop Weak Config permutationCount hasTestDataSet allSlice permutationFolds
       decisions rnd (Suc n) tracker st =
     (if ShouldStop decisions tracker then (Inr st, tracker)
      else if InterruptRaised decisions (Iteration tracker) then (Inl Interrupted, tracker)
      else
        (let saved = MaybeSaveSnapshot decisions (snapshotSaver st) tracker;
             iteration = Iteration saved
         in case andThen
                   (Fit_iteration Weak Config permutationCount hasTestDataSet allSlice
                      permutationFolds iteration (rnd iteration) st)
                   (Fit_bestTestCursor (BestTestIteration decisions iteration)) of
              Inl e \<Rightarrow> (Inl e, saved)
            | Inr st' \<Rightarrow>
                Fit_loop Weak Config permutationCount hasTestDataSet allSlice permutationFolds
                  decisions rnd n (saved\<lparr>Iteration := Suc iteration\<rparr>) st'))"

text \<open>
  \<open>Fit\<close>: the check of the permutation count, the loop, and the snapshot after the loop.
  The profiler, the log, the metric calcers and \<open>SetBestTestCursor\<close> report what \<open>Fit\<close> has
  computed and give nothing back to it; they are left out.
\<close>

definition Fit ::
  "('s, 'm, 'c) TWeakLearner \<Rightarrow> TBoostingOptions \<Rightarrow> nat \<Rightarrow> bool \<Rightarrow> TSlice \<Rightarrow> TFold list list
     \<Rightarrow> TExternalDecisions \<Rightarrow> (nat \<Rightarrow> nat)
     \<Rightarrow> ('m, 'c) TBoostingProgressTracker \<Rightarrow> ('m, 'c, 'z) TFitState_scheme
     \<Rightarrow> (error + ('m, 'c, 'z) TFitState_scheme) \<times> ('m, 'c) TBoostingProgressTracker" where
  "Fit Weak Config permutationCount hasTestDataSet allSlice permutationFolds decisions rnd
       tracker st =
     (if \<not> permutationCount \<ge> 1 then (Inl NoPermutation, tracker)
      else
        (case Fit_loop Weak Config permutationCount hasTestDataSet allSlice permutationFolds
                decisions rnd (IterationCount tracker - Iteration tracker) tracker st of
           (Inl e, tracker') \<Rightarrow> (Inl e, tracker')
         | (Inr st', tracker') \<Rightarrow>
             (Inr st', MaybeSaveSnapshot decisions (snapshotSaver st') tracker')))"

section \<open>\<open>Run\<close>\<close>

text \<open>
  \<open>Run\<close>: the two checks, \<open>CreateState\<close>, the best test cursor when the tracker needs one
  (a buffer on the mapping of the test cursor of the state, which is empty when there is
  no test provider), the restore from a snapshot and \<open>Fit\<close>. The tracker is a pointer
  that may be null. The result is \<open>None\<close> when \<open>CreateState\<close> does not return.
\<close>

definition Run ::
  "('s, 'm, 'c) TWeakLearner \<Rightarrow> TBoostingOptions \<Rightarrow> nat
     \<Rightarrow> (TDataSetRequest \<Rightarrow> TFeatureParallelDataSetsHolder)
     \<Rightarrow> TTrainingDataProvider option \<Rightarrow> TTrainingDataProvider option
     \<Rightarrow> (TDataSetView \<Rightarrow> nat \<Rightarrow> 'c) \<Rightarrow> bool \<Rightarrow> TExternalDecisions \<Rightarrow> (nat \<Rightarrow> nat)
     \<Rightarrow> ('m, 'c) TBoostingProgressTracker option
     \<Rightarrow> ((error + ('m, 'c) TBoostingState) \<times> ('m, 'c) TBoostingProgressTracker option) option"
  where
  "Run Weak Config devCount BuildDataSet DataProvider TestDataProvider baseline
       needBestTestCursor decisions rnd ProgressTracker =
     (case DataProvider of
        None \<Rightarrow> Some (Inl DataProviderMissing, ProgressTracker)
      | Some provider \<Rightarrow>
     (case ProgressTracker of
        None \<Rightarrow> Some (Inl ProgressTrackerMissing, None)
      | Some tracker \<Rightarrow>
     (case CreateState Config devCount BuildDataSet DataProvider TestDataProvider baseline of
        None \<Rightarrow> None
      | Some (Inl e) \<Rightarrow> Some (Inl e, Some tracker)
      | Some (Inr created) \<Rightarrow>
          (let testSize = (case TestCursor created of None \<Rightarrow> 0 | Some c \<Rightarrow> MappingSize c);
               state =
                 (if needBestTestCursor
                  then created\<lparr>BestTestCursor :=
                         Some \<lparr>MappingSize = testSize, Contents = baseline TestDataSet testSize\<rparr>\<rparr>
                  else created);
               (restoredTracker, restored) =
                 MaybeRestoreFromSnapshot (snapshotLoader (TestDataProvider \<noteq> None)) tracker state;
               (outcome, finalTracker) =
                 Fit Weak Config (length (SamplesGrouping (DataSets restored)))
                   (TestDataProvider \<noteq> None) \<lparr>Left = 0, Right = ObjectCount provider\<rparr>
                   (PermutationFolds restored) decisions rnd restoredTracker restored
           in Some (outcome, Some finalTracker)))))"


section \<open>The leaves estimator of oblivious trees\<close>

text \<open>
  Of \<open>TObliviousTreeLeavesEstimator\<close>, the two vectors that \<open>PointDim\<close> reads. A task helper
  holds device buffers, which play no part in \<open>PointDim\<close>; it is kept as the depth of the
  tree it was added for.
\<close>

record TObliviousTreeLeavesEstimator =
  TaskHelpers :: "nat list"
  TaskSlices :: "TSlice list"

definition newEstimator :: TObliviousTreeLeavesEstimator where
  "newEstimator = \<lparr>TaskHelpers = [], TaskSlices = []\<rparr>"

text \<open>
  Modelled from the spec: \<open>NextTask\<close> is declared in the header and defined outside the
  source files. The specification says that every task has \<open>2 ^ depth\<close> leaves and that
  the dimension of the point is the sum of the leaf counts of the registered tasks, the
  slice of a task being its range of leaves: the slice of a new task starts where the
  slice of the last task ends (at 0 for the first) and is as long as its leaf count.
\<close>

definition NextTask :: "nat \<Rightarrow> TObliviousTreeLeavesEstimator \<Rightarrow> TObliviousTreeLeavesEstimator" where
  "NextTask depth estimator =
     (let left = (if TaskHelpers estimator \<noteq> [] \<and> TaskSlices estimator \<noteq> []
                  then Right (last (TaskSlices estimator)) else 0);
          taskSlice = \<lparr>Left = left, Right = left + 2 ^ depth\<rparr>
      in \<lparr>TaskHelpers = TaskHelpers estimator @ [depth],
           TaskSlices = TaskSlices estimator @ [taskSlice]\<rparr>)"

text \<open>
  \<open>AddEstimationTask\<close>, for a model whose structure has the given depth: both overloads
  take the next task and fill its buffers.
\<close>

definition AddEstimationTask ::
  "nat \<Rightarrow> TObliviousTreeLeavesEstimator \<Rightarrow> TObliviousTreeLeavesEstimator" where
  "AddEstimationTask depth estimator = NextTask depth estimator"

text \<open>
  \<open>PointDim\<close>: \<open>CB_ENSURE(TaskHelpers.size())\<close>, then
  \<open>static_cast<ui32>(TaskSlices.back().Right)\<close>.
\<close>

definition PointDim :: "TObliviousTreeLeavesEstimator \<Rightarrow> error + nat" where
  "PointDim estimator =
     (if length (TaskHelpers estimator) = 0 then Inl NoEstimationTask
      else if TaskSlices estimator = [] then Inl UncheckedBack
      else Inr (ui32 (Right (last (TaskSlices estimator)))))"

section \<open>Concrete inputs\<close>

text \<open>Options used where a property is shown at a concrete input.\<close>

definition sampleOptions :: TBoostingOptions where
  "sampleOptions =
     \<lparr>BoostingType = OrderedBoosting, PermutationBlockSize = 32, PermutationCount = 4,
       MinFoldSize = 100, FoldLenMultiplier = 2, LearningRate = 3 / 100\<rparr>"

text \<open>
  Modelled from the spec: a grouping of \<open>groupCount\<close> groups of \<open>groupSize\<close> rows each, as
  an instance of the interface. The offset of group \<open>i\<close> is \<open>groupSize * i\<close>, and the next
  query offset for a line is the offset of the group after the one that holds the line,
  at most the number of rows.
\<close>

definition equalGroups :: "nat \<Rightarrow> nat \<Rightarrow> IQueriesGrouping" where
  "equalGroups groupSize groupCount =
     \<lparr>NextQueryOffsetForLine =
        (\<lambda>line. min (groupSize * Suc (line div groupSize)) (groupSize * groupCount)),
       GetQueryOffset = (\<lambda>i. groupSize * i),
       GetQueryCount = groupCount\<rparr>"

section \<open>What the planner is given and what it returns\<close>

text \<open>
  What is needed of a grouping for \<open>sampleCount\<close> rows: there is a group, the first group
  starts at row 0, no group starts after the last row, and the next query offset for a
  line up to \<open>sampleCount\<close> is a group boundary at or after the line and at most
  \<open>sampleCount\<close>. A boundary is the offset of a group or the end of the rows.
\<close>

definition is_boundary :: "nat \<Rightarrow> IQueriesGrouping \<Rightarrow> nat \<Rightarrow> bool" where
  "is_boundary sampleCount samplesGrouping b \<longleftrightarrow>
     b = sampleCount
     \<or> (\<exists>i<GetQueryCount samplesGrouping. GetQueryOffset samplesGrouping i = b)"

definition grouping_contract :: "nat \<Rightarrow> IQueriesGrouping \<Rightarrow> bool" where
  "grouping_contract sampleCount samplesGrouping \<longleftrightarrow>
     0 < GetQueryCount samplesGrouping
     \<and> GetQueryOffset samplesGrouping 0 = 0
     \<and> (\<forall>i<GetQueryCount samplesGrouping. GetQueryOffset samplesGrouping i \<le> sampleCount)
     \<and> (\<forall>line\<le>sampleCount.
           line \<le> NextQueryOffsetForLine samplesGrouping line
           \<and> NextQueryOffsetForLine samplesGrouping line \<le> sampleCount
           \<and> is_boundary sampleCount samplesGrouping
                (NextQueryOffsetForLine samplesGrouping line))"

text \<open>
  The folds of the ordered mode: every estimate range starts at 0; each fold estimates on
  what the fold before it has covered, and covers strictly more; the last fold covers all
  rows; every end of a range is a boundary. \<open>folds_so_far\<close> is the same for the folds that
  the loop has made when it is not yet at the end.
\<close>

definition on_boundaries :: "nat \<Rightarrow> IQueriesGrouping \<Rightarrow> TFold \<Rightarrow> bool" where
  "on_boundaries sampleCount samplesGrouping next \<longleftrightarrow>
     is_boundary sampleCount samplesGrouping (Left (EstimateSamples next))
     \<and> is_boundary sampleCount samplesGrouping (Right (EstimateSamples next))
     \<and> is_boundary sampleCount samplesGrouping (Left (QualityEvaluateSamples next))
     \<and> is_boundary sampleCount samplesGrouping (Right (QualityEvaluateSamples next))"

definition follows :: "TFold \<Rightarrow> TFold \<Rightarrow> bool" where
  "follows previous next \<longleftrightarrow>
     Right (EstimateSamples next) = Right (QualityEvaluateSamples previous)
     \<and> Right (QualityEvaluateSamples previous) < Right (QualityEvaluateSamples next)"

definition ordered_folds :: "nat \<Rightarrow> IQueriesGrouping \<Rightarrow> TFold list \<Rightarrow> bool" where
  "ordered_folds sampleCount samplesGrouping folds \<longleftrightarrow>
     folds \<noteq> []
     \<and> list_all (\<lambda>fold. Left (EstimateSamples fold) = 0) folds
     \<and> successively follows folds
     \<and> Right (QualityEvaluateSamples (last folds)) = sampleCount
     \<and> list_all (on_boundaries sampleCount samplesGrouping) folds"

definition folds_so_far :: "nat \<Rightarrow> IQueriesGrouping \<Rightarrow> nat \<Rightarrow> TFold list \<Rightarrow> bool" where
  "folds_so_far sampleCount samplesGrouping m folds \<longleftrightarrow>
     folds \<noteq> []
     \<and> list_all (\<lambda>fold. Left (EstimateSamples fold) = 0) folds
     \<and> successively follows folds
     \<and> m \<le> Right (QualityEvaluateSamples (last folds))
     \<and> Right (QualityEvaluateSamples (last folds)) \<le> sampleCount
     \<and> list_all (on_boundaries sampleCount samplesGrouping) folds"

text \<open>
  A round of the loop that does not move on: the fold before ends before the last row,
  and the next query offset for its scaled end is that same end. The fold that the round
  appends then ends where the fold before it ended, and so does every fold after it.
\<close>

definition stalled :: "IQueriesGrouping \<Rightarrow> nat \<Rightarrow> rat \<Rightarrow> TFold list \<Rightarrow> bool" where
  "stalled samplesGrouping sampleCount growthRate folds \<longleftrightarrow>
     Right (QualityEvaluateSamples (last folds)) < sampleCount
     \<and> NextQueryOffsetForLine samplesGrouping
          (min (scaled (Right (QualityEvaluateSamples (last folds))) growthRate) sampleCount)
         = Right (QualityEvaluateSamples (last folds))"

section \<open>The sizes of the cursors and runs without interruption\<close>

text \<open>
  The mapping sizes of the fold cursors, and the evaluate ends of the folds they belong
  to, each as one row for every learn permutation.
\<close>

definition cursor_sizes :: "'c TVec TFoldAndPermutationStorage \<Rightarrow> nat list list" where
  "cursor_sizes cursor = map (map MappingSize) (FoldData cursor)"

definition fold_ends :: "TFold list list \<Rightarrow> nat list list" where
  "fold_ends permutationFolds =
     map (map (\<lambda>next. Right (QualityEvaluateSamples next))) permutationFolds"

text \<open>The external decisions of a run in which the interruption signal is never raised.\<close>

definition uninterrupted :: "TExternalDecisions \<Rightarrow> TExternalDecisions" where
  "uninterrupted decisions = decisions\<lparr>InterruptRaised := (\<lambda>iteration. False)\<rparr>"

section \<open>A concrete run\<close>

text \<open>
  A weak learner, a data provider, a data set builder, external decisions and a tracker,
  used where a property is shown at a concrete input. The learner estimates the value 1
  for every leaf, a model is its value and a cursor is the sum of the models added to it.
  The builder gives every permutation 100 groups of 10 rows. The interruption signal is
  raised in iteration 2.
\<close>

definition sampleLearner :: "(nat, rat, rat) TWeakLearner" where
  "sampleLearner =
     \<lparr>SearchStructure = (\<lambda>rnd learnPermutationId iteration targets. iteration),
       DefaultModel = (\<lambda>weakModelStructure. 0),
       EstimateLeaves = (\<lambda>weakModelStructure tasks i. 1),
       Rescale = (\<lambda>step m. step * m),
       AddModelValue = (\<lambda>weakModelStructure m view c. c + m)\<rparr>"

definition sampleProvider :: TTrainingDataProvider where
  "sampleProvider = \<lparr>ObjectCount = 1000, Order = Unordered\<rparr>"

definition sampleBuilder :: "TDataSetRequest \<Rightarrow> TFeatureParallelDataSetsHolder" where
  "sampleBuilder request =
     \<lparr>SamplesGrouping = replicate (RequestedPermutationCount request) (equalGroups 10 100)\<rparr>"

definition sampleDecisions :: TExternalDecisions where
  "sampleDecisions =
     \<lparr>OverfittingDetected = (\<lambda>iteration. False),
       SnapshotDue = (\<lambda>iteration. True),
       InterruptRaised = (\<lambda>iteration. iteration = 2),
       BestTestIteration = (\<lambda>iteration. False)\<rparr>"

definition sampleTracker :: "(rat, rat) TBoostingProgressTracker" where
  "sampleTracker = \<lparr>Iteration = 0, IterationCount = 5, Snapshot = None\<rparr>"

text \<open>
  The same in \<open>Plain\<close> mode with one permutation: its one fold, and the state of \<open>Fit\<close> in
  which every cursor holds \<open>a\<close> and the result model is \<open>ms\<close>.
\<close>

definition plainOptions :: TBoostingOptions where
  "plainOptions = sampleOptions\<lparr>BoostingType := Plain\<rparr>"

definition plainFolds :: "TFold list list" where
  "plainFolds =
     [[\<lparr>EstimateSamples = \<lparr>Left = 0, Right = 1000\<rparr>,
        QualityEvaluateSamples = \<lparr>Left = 0, Right = 1000\<rparr>\<rparr>]]"

definition plainStateAt :: "rat \<Rightarrow> rat list \<Rightarrow> (rat, rat) TFitState" where
  "plainStateAt a ms =
     \<lparr>Cursor = \<lparr>FoldData = [[\<lparr>MappingSize = 1000, Contents = a\<rparr>]],
                Estimation = \<lparr>MappingSize = 1000, Contents = a\<rparr>\<rparr>,
       TestCursor = None, BestTestCursor = None, Result = ms\<rparr>"

definition plainState :: "(rat, rat) TFitState" where
  "plainState =
     \<lparr>Cursor = \<lparr>FoldData = [[\<lparr>MappingSize = 1000, Contents = 0\<rparr>]],
                Estimation = \<lparr>MappingSize = 1000, Contents = 0\<rparr>\<rparr>,
       TestCursor = None, BestTestCursor = None, Result = []\<rparr>"

section \<open>Properties of the helpers\<close>

lemma IntLog2_bounds: "0 < n \<Longrightarrow> 2 ^ IntLog2 n \<le> n \<and> n < 2 ^ Suc (IntLog2 n)"
proof (induction n rule: IntLog2.induct)
  case (1 n)
  show ?case
  proof (cases "n < 2")
    case True
    with "1.prems" show ?thesis by (simp add: IntLog2.simps)
  next
    case False
    then have "0 < n div 2" by simp
    with "1.IH" False
    have IH: "2 ^ IntLog2 (n div 2) \<le> n div 2 \<and> n div 2 < 2 ^ Suc (IntLog2 (n div 2))"
      by simp
    have e: "IntLog2 n = Suc (IntLog2 (n div 2))"
      using False by (subst IntLog2.simps) simp
    from IH show ?thesis unfolding e by simp linarith
  qed
qed

lemma IntLog2_floor_log: "0 < n \<Longrightarrow> int (IntLog2 n) = \<lfloor>log 2 (real n)\<rfloor>"
  using IntLog2_bounds [of n] floor_log_nat_eq_if [of 2 "IntLog2 n" n]
  by simp

lemma CeilDivide_cases:
  "0 < y \<Longrightarrow> CeilDivide x y = (if x mod y = 0 then x div y else Suc (x div y))"
proof -
  assume y: "0 < y"
  define q r where "q = x div y" and "r = x mod y"
  have x: "x = r + q * y" and ry: "r < y" using y by (simp_all add: q_def r_def)
  have step: "(c + k * y) div y = k" if "c < y" for c k
    using that y by simp
  show ?thesis
  proof (cases "r = 0")
    case True
    then have "x + y - 1 = (y - 1) + q * y" using x y by simp
    moreover have "y - 1 < y" using y by simp
    ultimately have "(x + y - 1) div y = q" using step by metis
    with True show ?thesis by (simp add: CeilDivide_def q_def r_def)
  next
    case False
    then have "x + y - 1 = (r - 1) + Suc q * y" using x y by simp
    moreover have "r - 1 < y" using ry by simp
    ultimately have "(x + y - 1) div y = Suc q" using step by metis
    with False show ?thesis by (simp add: CeilDivide_def q_def r_def)
  qed
qed

lemma CeilDivide_ceiling: "0 < y \<Longrightarrow> int (CeilDivide x y) = \<lceil>real x / real y\<rceil>"
proof -
  assume y: "0 < y"
  have m: "(int x mod int y = 0) = (x mod y = 0)"
    by (metis of_nat_mod of_nat_eq_0_iff)
  have d: "int x div int y = int (x div y)"
    by (rule zdiv_int [symmetric])
  have "\<lceil>real x / real y\<rceil> = \<lceil>real_of_int (int x) / real_of_int (int y)\<rceil>" by simp
  also have "\<dots> = - (- int x div int y)" by (rule ceiling_divide_eq_div)
  also have "\<dots> = (if int x mod int y = 0 then int x div int y else int x div int y + 1)"
    using y by (simp add: zdiv_zminus1_eq_if)
  also have "\<dots> = int (CeilDivide x y)"
    unfolding m d CeilDivide_cases [OF y] by simp
  finally show ?thesis by simp
qed

lemma CeilDivide_pos: "0 < x \<Longrightarrow> 0 < y \<Longrightarrow> 0 < CeilDivide x y"
proof -
  assume x: "0 < x" and y: "0 < y"
  have "0 < x div y" if "x mod y = 0"
  proof (rule ccontr)
    assume "\<not> 0 < x div y"
    then have "x div y = 0" by simp
    with that have "x = 0" using div_mult_mod_eq [of x y] by simp
    with x show False by simp
  qed
  then show ?thesis by (simp add: CeilDivide_cases [OF y])
qed

section \<open>The minimum estimation size\<close>

text \<open>
  C8. For a positive \<open>MinFoldSize\<close>, \<open>MinEstimationSize\<close> returns 1 for fewer than 500
  documents; otherwise it returns the document count divided by \<open>2 ^ 18\<close>, rounded up, when
  the integer part of the binary logarithm of the document count divided by \<open>MinFoldSize\<close>
  (rounded up) is at least 18, and the smaller of \<open>MinFoldSize\<close> and a fiftieth of the
  document count (rounded down) when it is not. The quotients and the logarithm are those
  of the real numbers.
\<close>

theorem MinEstimationSize_policy:
  assumes "0 < MinFoldSize Config"
  shows "MinEstimationSize Config docCount =
     (if docCount < 500 then 1
      else if 18 \<le> \<lfloor>log 2 (real_of_int \<lceil>real docCount / real (MinFoldSize Config)\<rceil>)\<rfloor>
        then nat \<lceil>real docCount / 2 ^ 18\<rceil>
        else min (MinFoldSize Config) (docCount div 50))"
proof (cases "docCount < 500")
  case True
  then show ?thesis by (simp add: MinEstimationSize_def)
next
  case False
  then have d: "0 < docCount" by simp
  let ?c = "CeilDivide docCount (MinFoldSize Config)"
  have c: "0 < ?c" using d assms by (rule CeilDivide_pos)
  have "real_of_int \<lceil>real docCount / real (MinFoldSize Config)\<rceil> = real ?c"
    using CeilDivide_ceiling [OF assms, of docCount] by (metis of_int_of_nat_eq)
  then have l:
    "\<lfloor>log 2 (real_of_int \<lceil>real docCount / real (MinFoldSize Config)\<rceil>)\<rfloor> = int (IntLog2 ?c)"
    using IntLog2_floor_log [OF c] by simp
  have "int (CeilDivide docCount (2 ^ 18)) = \<lceil>real docCount / real (2 ^ 18)\<rceil>"
    by (rule CeilDivide_ceiling) simp
  then have k: "CeilDivide docCount (ui32 (2 ^ 18)) = nat \<lceil>real docCount / 2 ^ 18\<rceil>"
    by (simp add: ui32_def)
  show ?thesis
    unfolding MinEstimationSize_def Let_def k using False l by simp
qed

theorem MinEstimationSize_policy_witness:
  "0 < MinFoldSize sampleOptions \<and> MinEstimationSize sampleOptions 1000 = 20"
  using MinEstimationSize_policy [of sampleOptions 1000]
  by (simp add: sampleOptions_def MinEstimationSize_def CeilDivide_def IntLog2.simps)

section \<open>The number of permutations\<close>

text \<open>
  C6. With a data provider, \<open>CreateDataSet\<close> asks the builder for exactly one permutation
  when the objects order of the data is \<open>Ordered\<close>, whatever the configured permutation
  count is, and for the configured permutation count otherwise.
\<close>

theorem CreateDataSet_permutation_count:
  "\<exists>request. CreateDataSet Config (Some provider) = Inr request
     \<and> RequestedPermutationCount request
        = (if Order provider = Ordered then 1 else PermutationCount Config)"
  by (simp add: CreateDataSet_def)

section \<open>The learn permutation of the structure search\<close>

lemma Fit_learnPermutationId_less:
  "1 < n \<Longrightarrow> n < 2 ^ 32 \<Longrightarrow> Fit_learnPermutationId n rnd < n - 1"
proof -
  assume n: "1 < n" "n < 2 ^ 32"
  then have "rnd mod (n - 1) < n - 1" by simp
  moreover from this n have "rnd mod (n - 1) < 2 ^ 32" by linarith
  ultimately show ?thesis using n by (simp add: Fit_learnPermutationId_def ui32_def)
qed

lemma Fit_learnPermutationId_single: "Fit_learnPermutationId 1 rnd = 0"
  by (simp add: Fit_learnPermutationId_def)

text \<open>
  C1. With three permutations there are two learn permutations, 0 and 1, and the
  estimation permutation 2. Whatever the random number is, the structure search uses
  permutation 0: the remainder is taken modulo \<open>learnPermutationCount - 1\<close>, so learn
  permutation 1 is never drawn.
\<close>

theorem Fit_learnPermutationId_last_never_drawn:
  "Fit_learnPermutationCount 3 = 2 \<and> Fit_learnPermutationId (Fit_learnPermutationCount 3) rnd = 0"
  by (simp add: Fit_learnPermutationId_def Fit_learnPermutationCount_def
      Fit_estimationPermutation_def ui32_def)

section \<open>The permutation block size\<close>

text \<open>
  Below 50000 samples the block size is 1; a configured size of 0 or 1 is returned as it
  is; and a configured size between 2 and \<open>2 ^ 25 - 1\<close> gives a power of two whose
  product with 128 is at most the sample count.
\<close>

lemma GetPermutationBlockSize_small:
  "sampleCount < 50000 \<Longrightarrow> GetPermutationBlockSize Config sampleCount = 1"
  by (simp add: GetPermutationBlockSize_def)

lemma GetPermutationBlockSize_unchanged:
  "50000 \<le> sampleCount \<Longrightarrow> PermutationBlockSize Config \<le> 1 \<Longrightarrow>
     GetPermutationBlockSize Config sampleCount = PermutationBlockSize Config"
  by (simp add: GetPermutationBlockSize_def)

lemma GetPermutationBlockSize_loop_power:
  "128 \<le> sampleCount \<Longrightarrow> k \<le> 24 \<Longrightarrow>
     \<exists>j\<le>k. GetPermutationBlockSize_loop sampleCount (2 ^ k) = 2 ^ j
       \<and> 2 ^ j * 128 \<le> sampleCount"
proof (induction k)
  case 0
  then show ?case
    by (subst GetPermutationBlockSize_loop.simps) (simp add: ui32_def)
next
  case (Suc k)
  have "(2::nat) ^ Suc k * 128 = 2 ^ (k + 8)" by (simp add: power_add)
  also have "\<dots> < 2 ^ 32" using Suc.prems by (intro power_strict_increasing) simp_all
  finally have w: "ui32 (2 ^ Suc k * 128) = 2 ^ Suc k * 128"
    by (simp add: ui32_def)
  show ?case
  proof (cases "2 ^ Suc k * 128 \<le> sampleCount")
    case True
    then have "GetPermutationBlockSize_loop sampleCount (2 ^ Suc k) = 2 ^ Suc k"
      by (subst GetPermutationBlockSize_loop.simps) (simp only: w, simp)
    with True show ?thesis by blast
  next
    case False
    then have "GetPermutationBlockSize_loop sampleCount (2 ^ Suc k)
        = GetPermutationBlockSize_loop sampleCount (2 ^ k)"
      by (subst GetPermutationBlockSize_loop.simps) (simp only: w, simp)
    moreover from Suc obtain j where "j \<le> k"
      "GetPermutationBlockSize_loop sampleCount (2 ^ k) = 2 ^ j" "2 ^ j * 128 \<le> sampleCount"
      by auto
    ultimately show ?thesis by (metis le_Suc_eq)
  qed
qed

lemma GetPermutationBlockSize_power:
  assumes "50000 \<le> sampleCount" "1 < PermutationBlockSize Config"
    "PermutationBlockSize Config < 2 ^ 25"
  shows "\<exists>j. GetPermutationBlockSize Config sampleCount = 2 ^ j
     \<and> 1 \<le> GetPermutationBlockSize Config sampleCount
     \<and> GetPermutationBlockSize Config sampleCount * 128 \<le> sampleCount"
proof -
  let ?k = "IntLog2 (PermutationBlockSize Config)"
  from IntLog2_bounds [of "PermutationBlockSize Config"] assms
  have "(2::nat) ^ ?k < 2 ^ 25" by simp
  then have "?k < 25" by (rule power_less_imp_less_exp [rotated]) simp
  then have k: "?k \<le> 24" by simp
  then have "(2::nat) ^ ?k < 2 ^ 32" by (intro power_strict_increasing) simp_all
  then have w: "ui32 (2 ^ ?k) = 2 ^ ?k" by (simp add: ui32_def)
  from GetPermutationBlockSize_loop_power [OF _ k, of sampleCount] assms(1)
  obtain j where "GetPermutationBlockSize_loop sampleCount (2 ^ ?k) = 2 ^ j"
    "2 ^ j * 128 \<le> sampleCount"
    by auto
  with assms show ?thesis
    by (auto simp: GetPermutationBlockSize_def Let_def w)
qed

text \<open>
  C10. With a configured block size of \<open>2 ^ 25\<close> and 50000 samples the function returns
  \<open>2 ^ 25\<close>: the product with 128 is \<open>2 ^ 32\<close>, which is 0 as an unsigned 32-bit number, so
  the loop does not run, although 128 blocks of that size exceed the sample count.
\<close>

theorem GetPermutationBlockSize_overflow:
  "GetPermutationBlockSize (sampleOptions\<lparr>PermutationBlockSize := 33554432\<rparr>) 50000 = 33554432
   \<and> \<not> 33554432 * 128 \<le> (50000::nat)"
  by (simp add: sampleOptions_def GetPermutationBlockSize_def GetPermutationBlockSize_loop.simps
      IntLog2.simps ui32_def)

section \<open>The dimension of the point of the leaves estimator\<close>

lemma AddEstimationTask_helpers:
  "TaskHelpers (AddEstimationTask depth estimator) = TaskHelpers estimator @ [depth]"
  by (simp add: AddEstimationTask_def NextTask_def Let_def)

lemma AddEstimationTask_slices_length:
  "length (TaskSlices (AddEstimationTask depth estimator)) = Suc (length (TaskSlices estimator))"
  by (simp add: AddEstimationTask_def NextTask_def Let_def)

lemma AddEstimationTask_last_right:
  "Right (last (TaskSlices (AddEstimationTask depth estimator))) =
     (if TaskHelpers estimator \<noteq> [] \<and> TaskSlices estimator \<noteq> []
      then Right (last (TaskSlices estimator)) else 0) + 2 ^ depth"
  by (simp add: AddEstimationTask_def NextTask_def Let_def)

lemma registered_tasks:
  "TaskHelpers (fold AddEstimationTask depths newEstimator) = depths
   \<and> length (TaskSlices (fold AddEstimationTask depths newEstimator)) = length depths
   \<and> (depths \<noteq> [] \<longrightarrow>
        Right (last (TaskSlices (fold AddEstimationTask depths newEstimator)))
          = sum_list (map (\<lambda>depth. 2 ^ depth) depths))"
proof (induction depths rule: rev_induct)
  case Nil
  show ?case by (simp add: newEstimator_def)
next
  case (snoc depth depths)
  let ?e = "fold AddEstimationTask depths newEstimator"
  from snoc have h: "TaskHelpers ?e = depths" and l: "length (TaskSlices ?e) = length depths"
    by simp_all
  have f: "fold AddEstimationTask (depths @ [depth]) newEstimator = AddEstimationTask depth ?e"
    by simp
  show ?case
  proof (cases "depths = []")
    case True
    with h show ?thesis
      unfolding f AddEstimationTask_helpers AddEstimationTask_slices_length
        AddEstimationTask_last_right
      by (simp add: newEstimator_def)
  next
    case False
    with l have "TaskSlices ?e \<noteq> []" by auto
    with False snoc h l show ?thesis
      unfolding f AddEstimationTask_helpers AddEstimationTask_slices_length
        AddEstimationTask_last_right
      by simp
  qed
qed

text \<open>
  C9. After any sequence of calls of \<open>AddEstimationTask\<close> on a new estimator, for trees of
  the given depths, \<open>PointDim\<close> throws exactly when the sequence is empty, and otherwise
  returns the sum of \<open>2 ^ depth\<close> over the tasks, provided the sum fits into 32 bits (the
  result is narrowed to \<open>ui32\<close>).
\<close>

theorem PointDim_total_leaves:
  assumes "sum_list (map (\<lambda>depth. 2 ^ depth) depths) < (2::nat) ^ 32"
  shows "PointDim (fold AddEstimationTask depths newEstimator) =
     (if depths = [] then Inl NoEstimationTask
      else Inr (sum_list (map (\<lambda>depth. 2 ^ depth) depths)))"
proof (cases "depths = []")
  case True
  then show ?thesis by (simp add: PointDim_def newEstimator_def)
next
  case False
  let ?e = "fold AddEstimationTask depths newEstimator"
  from registered_tasks [of depths] False
  have h: "TaskHelpers ?e = depths" and l: "length (TaskSlices ?e) = length depths"
    and r: "Right (last (TaskSlices ?e)) = sum_list (map (\<lambda>depth. 2 ^ depth) depths)"
    by simp_all
  from l False have "TaskSlices ?e \<noteq> []" by auto
  with False h r assms show ?thesis
    by (simp add: PointDim_def ui32_def)
qed

theorem PointDim_total_leaves_witness:
  "sum_list (map (\<lambda>depth. 2 ^ depth) [6, 6, 4]) < (2::nat) ^ 32
   \<and> PointDim (fold AddEstimationTask [6, 6, 4] newEstimator) = Inr 144
   \<and> PointDim (fold AddEstimationTask [] newEstimator) = Inl NoEstimationTask"
  using PointDim_total_leaves [of "[6, 6, 4]"] PointDim_total_leaves [of "[]"]
  by simp

section \<open>The checks of \<open>CreateFolds\<close>\<close>

text \<open>
  C7. With fewer than \<open>2 ^ 30\<close> devices (so that \<open>4 * devCount\<close> is the product),
  \<open>CreateFolds\<close> throws exactly when the growth rate is at most 1, or the minimum
  estimation size it has computed is 0, or the grouping has fewer than \<open>4 * devCount\<close>
  queries. When it throws it returns no folds, and what it throws is one of the three
  configuration errors. The checks come before the first fold is made.
\<close>

theorem CreateFolds_configuration_errors:
  assumes "devCount < 2 ^ 30"
  shows "((\<exists>e. CreateFolds Config devCount sampleCount growthRate samplesGrouping = Some (Inl e))
       \<longleftrightarrow> (growthRate \<le> 1
            \<or> CreateFolds_minEstimationSize Config devCount sampleCount samplesGrouping = 0
            \<or> GetQueryCount samplesGrouping < 4 * devCount))
     \<and> (\<forall>e. CreateFolds Config devCount sampleCount growthRate samplesGrouping = Some (Inl e)
          \<longrightarrow> (\<forall>folds. CreateFolds Config devCount sampleCount growthRate samplesGrouping
                       \<noteq> Some (Inr folds))
              \<and> e \<in> {TooFewGroups (GetQueryCount samplesGrouping) devCount,
                      MinLearnSizeNotPositive, GrowRateTooSmall})"
proof -
  from assms have w: "ui32 (4 * devCount) = 4 * devCount"
    by (simp add: ui32_def)
  have "(\<exists>e. CreateFolds Config devCount sampleCount growthRate samplesGrouping = Some (Inl e))
     \<longleftrightarrow> (growthRate \<le> 1
          \<or> CreateFolds_minEstimationSize Config devCount sampleCount samplesGrouping = 0
          \<or> GetQueryCount samplesGrouping < 4 * devCount)"
    by (auto simp: CreateFolds_def Let_def w split: if_splits)
  moreover
  have "\<forall>e. CreateFolds Config devCount sampleCount growthRate samplesGrouping = Some (Inl e)
       \<longrightarrow> (\<forall>folds. CreateFolds Config devCount sampleCount growthRate samplesGrouping
                    \<noteq> Some (Inr folds))
           \<and> e \<in> {TooFewGroups (GetQueryCount samplesGrouping) devCount,
                   MinLearnSizeNotPositive, GrowRateTooSmall}"
    by (auto simp: CreateFolds_def Let_def split: if_splits)
  ultimately show ?thesis by blast
qed

theorem CreateFolds_configuration_errors_witness:
  "(1::nat) < 2 ^ 30
   \<and> CreateFolds sampleOptions 1 1000 1 (equalGroups 10 100) = Some (Inl GrowRateTooSmall)
   \<and> (\<exists>e. CreateFolds sampleOptions 1 1000 1 (equalGroups 10 100) = Some (Inl e))"
  using CreateFolds_configuration_errors [of 1 sampleOptions 1000 1 "equalGroups 10 100"]
  by (simp add: CreateFolds_def CreateFolds_minEstimationSize_def MinEstimationSize_def
      sampleOptions_def equalGroups_def CeilDivide_def IntLog2.simps ui32_def)

section \<open>The folds of \<open>CreateFolds\<close>\<close>

lemma round_half_even_cases:
  "round_half_even x = \<lfloor>x\<rfloor> \<or> round_half_even x = \<lfloor>x\<rfloor> + 1"
  by (simp add: round_half_even_def Let_def)

lemma round_half_even_of_int: "round_half_even (of_int j) = j"
  by (simp add: round_half_even_def)

lemma round_half_even_ge: "of_int j \<le> x \<Longrightarrow> j \<le> round_half_even x"
  using round_half_even_cases [of x] le_floor_iff [of j x] by linarith

lemma round_half_even_le:
  assumes "x \<le> of_int j"
  shows "round_half_even x \<le> j"
proof (cases "x = of_int j")
  case True
  then show ?thesis by (simp add: round_half_even_of_int)
next
  case False
  with assms have "x < of_int j" by simp
  then have "\<lfloor>x\<rfloor> < j" by (simp add: floor_less_iff)
  with round_half_even_cases [of x] show ?thesis by linarith
qed

lemma binade_bounds:
  assumes "1 \<le> x"
  shows "0 \<le> binade x" and "2 ^ nat (binade x) \<le> x" and "x < 2 ^ nat (binade x + 1)"
proof -
  from assms have f: "0 < \<lfloor>x\<rfloor>" by simp
  from bitlen_bounds [OF f]
  have lo: "2 ^ nat (bitlen \<lfloor>x\<rfloor> - 1) \<le> \<lfloor>x\<rfloor>" and hi: "\<lfloor>x\<rfloor> < 2 ^ nat (bitlen \<lfloor>x\<rfloor>)"
    by blast+
  have "0 < bitlen \<lfloor>x\<rfloor>"
  proof (rule ccontr)
    assume "\<not> 0 < bitlen \<lfloor>x\<rfloor>"
    then have "nat (bitlen \<lfloor>x\<rfloor>) = 0" by simp
    with hi f show False by simp
  qed
  then show "0 \<le> binade x" using assms by (simp add: binade_def)
  from lo have "of_int (2 ^ nat (bitlen \<lfloor>x\<rfloor> - 1)) \<le> (of_int \<lfloor>x\<rfloor> :: rat)"
    by (simp only: of_int_le_iff)
  also have "\<dots> \<le> x" by simp
  finally show "2 ^ nat (binade x) \<le> x" using assms by (simp add: binade_def)
  from hi have "\<lfloor>x\<rfloor> + 1 \<le> 2 ^ nat (bitlen \<lfloor>x\<rfloor>)" by simp
  then have "(of_int (\<lfloor>x\<rfloor> + 1) :: rat) \<le> of_int (2 ^ nat (bitlen \<lfloor>x\<rfloor>))"
    by (simp only: of_int_le_iff)
  moreover have "x < of_int (\<lfloor>x\<rfloor> + 1)" by linarith
  ultimately have "x < of_int (2 ^ nat (bitlen \<lfloor>x\<rfloor>))" by linarith
  then show "x < 2 ^ nat (binade x + 1)" using assms by (simp add: binade_def)
qed

lemma nearest_double_fine:
  assumes x: "1 \<le> x" and e: "binade x \<le> 52"
  shows "nearest_double x
     = of_int (round_half_even (x * 2 ^ nat (52 - binade x))) / 2 ^ nat (52 - binade x)"
proof -
  from binade_bounds(1) [OF x] have m: "max (binade x) (- 1022) = binade x" by simp
  have "(2::rat) powi (binade x - 52) = 1 / 2 ^ nat (52 - binade x)"
  proof (cases "binade x = 52")
    case True
    then show ?thesis by simp
  next
    case False
    with e have "binade x - 52 < 0" by simp
    then show ?thesis
      by (simp add: power_int_def power_one_over inverse_eq_divide)
  qed
  with x m show ?thesis by (simp add: nearest_double_def Let_def)
qed

lemma nearest_double_coarse:
  assumes x: "1 \<le> x" and e: "52 \<le> binade x"
  shows "nearest_double x
     = of_int (round_half_even (x / 2 ^ nat (binade x - 52))) * 2 ^ nat (binade x - 52)"
proof -
  from binade_bounds(1) [OF x] have m: "max (binade x) (- 1022) = binade x" by simp
  from e have "(2::rat) powi (binade x - 52) = 2 ^ nat (binade x - 52)"
    by (simp add: power_int_def)
  with x m show ?thesis by (simp add: nearest_double_def Let_def)
qed

lemma nearest_double_ge:
  assumes k: "1 \<le> k" "k \<le> 2 ^ 53" and x: "of_int k \<le> x"
  shows "of_int k \<le> nearest_double x"
proof -
  from k x have x1: "1 \<le> x" by (metis of_int_1_le_iff order_trans)
  show ?thesis
  proof (cases "binade x \<le> 52")
    case True
    let ?M = "2 ^ nat (52 - binade x)"
    from x have "of_int k * ?M \<le> x * ?M" by (simp add: mult_right_mono)
    then have "of_int (k * ?M) \<le> x * ?M" by simp
    then have "k * ?M \<le> round_half_even (x * ?M)" by (rule round_half_even_ge)
    then have "(of_int (k * ?M) :: rat) \<le> of_int (round_half_even (x * ?M))"
      by (simp only: of_int_le_iff)
    then have "(of_int k :: rat) * ?M \<le> of_int (round_half_even (x * ?M))" by simp
    then have "(of_int k :: rat) \<le> of_int (round_half_even (x * ?M)) / ?M"
      by (simp add: pos_le_divide_eq)
    then show ?thesis unfolding nearest_double_fine [OF x1 True] .
  next
    case False
    then have c: "52 \<le> binade x" and b: "53 \<le> nat (binade x)" by simp_all
    let ?U = "(2::rat) ^ nat (binade x - 52)"
    from c have s: "nat (binade x) = 52 + nat (binade x - 52)" by simp
    have "(2::rat) ^ 52 * ?U = 2 ^ nat (binade x)"
      by (subst s) (simp only: power_add)
    with binade_bounds(2) [OF x1] have "2 ^ 52 * ?U \<le> x" by simp
    then have "of_int (2 ^ 52) \<le> x / ?U" by (simp add: pos_le_divide_eq)
    then have "2 ^ 52 \<le> round_half_even (x / ?U)" by (rule round_half_even_ge)
    then have "(of_int (2 ^ 52) :: rat) \<le> of_int (round_half_even (x / ?U))"
      by (simp only: of_int_le_iff)
    then have "(2::rat) ^ 52 * ?U \<le> of_int (round_half_even (x / ?U)) * ?U"
      by (simp add: mult_right_mono)
    then have "(2::rat) ^ nat (binade x) \<le> nearest_double x"
      unfolding nearest_double_coarse [OF x1 c] \<open>(2::rat) ^ 52 * ?U = 2 ^ nat (binade x)\<close> .
    moreover from b have "(2::rat) ^ 53 \<le> 2 ^ nat (binade x)"
      by (intro power_increasing) simp_all
    moreover from k have "(of_int k :: rat) \<le> of_int (2 ^ 53)" by (simp only: of_int_le_iff)
    ultimately show ?thesis by simp
  qed
qed

lemma nearest_double_le:
  assumes x1: "1 \<le> x" and x: "x \<le> of_int k" and k: "k \<le> 2 ^ 53"
  shows "nearest_double x \<le> of_int k"
proof (cases "binade x \<le> 52")
  case True
  let ?M = "2 ^ nat (52 - binade x)"
  from x have "x * ?M \<le> of_int k * ?M" by (simp add: mult_right_mono)
  then have "x * ?M \<le> of_int (k * ?M)" by simp
  then have "round_half_even (x * ?M) \<le> k * ?M" by (rule round_half_even_le)
  then have "(of_int (round_half_even (x * ?M)) :: rat) \<le> of_int (k * ?M)"
    by (simp only: of_int_le_iff)
  then have "(of_int (round_half_even (x * ?M)) :: rat) \<le> of_int k * ?M" by simp
  then have "of_int (round_half_even (x * ?M)) / ?M \<le> (of_int k :: rat)"
    by (simp add: pos_divide_le_eq)
  then show ?thesis unfolding nearest_double_fine [OF x1 True] .
next
  case False
  then have c: "52 \<le> binade x" and b: "53 \<le> nat (binade x)" by simp_all
  from b have "(2::rat) ^ 53 \<le> 2 ^ nat (binade x)"
    by (intro power_increasing) simp_all
  moreover from k have "(of_int k :: rat) \<le> of_int (2 ^ 53)" by (simp only: of_int_le_iff)
  ultimately have "x = 2 ^ 53" and k53: "(of_int k :: rat) = 2 ^ 53"
    using binade_bounds(2) [OF x1] x by simp_all
  have "binade x = 53"
  proof (rule ccontr)
    assume "binade x \<noteq> 53"
    with False have "54 \<le> nat (binade x)" by simp
    then have "(2::rat) ^ 54 \<le> 2 ^ nat (binade x)"
      by (intro power_increasing) simp_all
    with binade_bounds(2) [OF x1] \<open>x = 2 ^ 53\<close> show False by simp
  qed
  moreover have "round_half_even (2 ^ 53 / 2) = 2 ^ 52"
    using round_half_even_of_int [of "2 ^ 52"] by simp
  ultimately have "nearest_double x = 2 ^ 53"
    using nearest_double_coarse [OF x1 c] \<open>x = 2 ^ 53\<close> by simp
  with k53 show ?thesis by simp
qed

lemma nearest_double_of_int:
  assumes "\<bar>k\<bar> \<le> 2 ^ 53"
  shows "nearest_double (of_int k) = of_int k"
proof -
  have pos: "nearest_double (of_int j) = of_int j" if "1 \<le> j" "j \<le> 2 ^ 53" for j
  proof (rule antisym)
    from that have "(1::rat) \<le> of_int j" by simp
    then show "nearest_double (of_int j) \<le> of_int j"
      using that by (intro nearest_double_le) simp_all
    show "of_int j \<le> nearest_double (of_int j)"
      using that by (intro nearest_double_ge) simp_all
  qed
  have neg: "nearest_double (- x) = - nearest_double x" for x
    by (simp add: nearest_double_def Let_def)
  consider "k = 0" | "1 \<le> k" | "1 \<le> - k" by linarith
  then show ?thesis
  proof cases
    case 1
    then show ?thesis by (simp add: nearest_double_def)
  next
    case 2
    with assms show ?thesis by (intro pos) simp_all
  next
    case 3
    with assms have "nearest_double (of_int (- k)) = of_int (- k)" by (intro pos) simp_all
    then show ?thesis using neg [of "of_int k"] by simp
  qed
qed

lemma nearest_double_numeral:
  "(numeral w :: int) \<le> 2 ^ 53 \<Longrightarrow> nearest_double (numeral w) = numeral w"
  using nearest_double_of_int [of "numeral w"] by simp

lemma nearest_double_0: "nearest_double 0 = 0"
  by (simp add: nearest_double_def)

lemma floor_rat_numeral:
  "\<lfloor>numeral a / numeral b :: rat\<rfloor> = numeral a div numeral b"
  using floor_divide_of_int_eq [of "numeral a" "numeral b", where ?'a = rat] by simp

text \<open>
  The product is rounded before the fraction is dropped. The \<open>double\<close> nearest to 2.4 is a
  little less than 2.4, and 200 times that number is less than 480; the nearest \<open>double\<close>
  is 480, and that is what the conversion gets.
\<close>

lemma nearest_double_12_5: "nearest_double (12 / 5) = 5404319552844595 / 2 ^ 51"
  by (simp add: nearest_double_def binade_def bitlen_def compute_floorlog round_half_even_def
      Let_def power_int_def power_one_over floor_rat_numeral)

lemma scaled_rounds:
  "scaled 200 (nearest_double (12 / 5)) = 480
   \<and> 200 * nearest_double (12 / 5) < 480"
  unfolding nearest_double_12_5
  by (simp add: scaled_def double_to_ui32_def nearest_double_def binade_def bitlen_def
      compute_floorlog round_half_even_def Let_def power_int_def power_one_over
      floor_rat_numeral)

text \<open>
  While the products are at most the largest \<open>ui32\<close>, the conversion keeps the whole part of
  the rounded product, and the result is not below any whole number that the exact product
  is not below.
\<close>

lemma scaled_in_range:
  assumes "1 < growthRate" "of_nat sampleCount * growthRate \<le> 2 ^ 32 - 1" "e \<le> sampleCount"
    and k: "0 < k" "of_nat k \<le> of_nat e * growthRate"
  shows "scaled e growthRate = nat \<lfloor>nearest_double (of_nat e * growthRate)\<rfloor>"
    and "k \<le> scaled e growthRate"
proof -
  let ?x = "of_nat e * growthRate"
  from k have "(1::rat) \<le> of_nat k" by simp
  with k have x1: "1 \<le> ?x" by linarith
  have "?x \<le> of_nat sampleCount * growthRate"
    using assms by (intro mult_right_mono) simp_all
  moreover from assms(2) have "of_nat sampleCount * growthRate \<le> 4294967295" by simp
  ultimately have "?x \<le> 4294967295" by linarith
  then have x32: "?x \<le> of_int 4294967295" by simp
  from nearest_double_le [OF x1 x32] have "nearest_double ?x < 4294967296" by simp
  then have hi: "\<lfloor>nearest_double ?x\<rfloor> < 4294967296" by (simp add: floor_less_iff)
  from k x32 have "(of_nat k :: rat) \<le> 4294967295" by simp
  then have "k \<le> 4294967295" by (simp only: of_nat_le_iff [symmetric, where ?'a = rat] of_nat_numeral)
  with k have "1 \<le> int k" "int k \<le> 2 ^ 53" by simp_all
  moreover from k have "of_int (int k) \<le> ?x" by simp
  ultimately have "of_int (int k) \<le> nearest_double ?x" by (rule nearest_double_ge)
  then have lo: "int k \<le> \<lfloor>nearest_double ?x\<rfloor>" by (simp add: le_floor_iff)
  with k have "0 \<le> \<lfloor>nearest_double ?x\<rfloor>" by linarith
  then have n: "0 \<le> nearest_double ?x" "0 \<le> \<lfloor>nearest_double ?x\<rfloor>" by simp_all
  from n hi show s: "scaled e growthRate = nat \<lfloor>nearest_double ?x\<rfloor>"
    by (simp add: scaled_def double_to_ui32_def Let_def)
  from lo show "k \<le> scaled e growthRate" unfolding s by linarith
qed

lemma scaled_ge:
  assumes "1 < growthRate" "of_nat sampleCount * growthRate \<le> 2 ^ 32 - 1" "e \<le> sampleCount"
  shows "e \<le> scaled e growthRate"
proof (cases "e = 0")
  case True
  then show ?thesis by simp
next
  case False
  have "(of_nat e :: rat) * 1 \<le> of_nat e * growthRate"
    using assms by (intro mult_left_mono) simp_all
  with False show ?thesis by (intro scaled_in_range(2) [OF assms]) simp_all
qed

lemma scaled_gt:
  assumes "1 < growthRate" "of_nat sampleCount * growthRate \<le> 2 ^ 32 - 1" "e \<le> sampleCount"
    and "1 \<le> of_nat m * (growthRate - 1)" "m \<le> e"
  shows "e < scaled e growthRate"
proof -
  have "(of_nat m :: rat) * (growthRate - 1) \<le> of_nat e * (growthRate - 1)"
    using assms by (intro mult_right_mono) simp_all
  with assms have "1 \<le> (of_nat e :: rat) * (growthRate - 1)" by linarith
  then have "of_nat (Suc e) \<le> (of_nat e :: rat) * growthRate"
    by (simp add: algebra_simps)
  then have "Suc e \<le> scaled e growthRate"
    by (intro scaled_in_range(2) [OF assms(1-3)]) simp_all
  then show ?thesis by simp
qed

lemma next_end:
  assumes c: "grouping_contract sampleCount g"
    and gr: "1 < growthRate" "of_nat sampleCount * growthRate \<le> 2 ^ 32 - 1"
    and p: "(\<forall>line<sampleCount. line < NextQueryOffsetForLine g line)
            \<or> 1 \<le> of_nat m * (growthRate - 1)"
    and e: "m \<le> e" "e < sampleCount"
  shows "e < NextQueryOffsetForLine g (min (scaled e growthRate) sampleCount)
     \<and> NextQueryOffsetForLine g (min (scaled e growthRate) sampleCount) \<le> sampleCount
     \<and> is_boundary sampleCount g
          (NextQueryOffsetForLine g (min (scaled e growthRate) sampleCount))"
proof -
  let ?line = "min (scaled e growthRate) sampleCount"
  have le: "?line \<le> sampleCount" by simp
  with c have n: "?line \<le> NextQueryOffsetForLine g ?line"
    "NextQueryOffsetForLine g ?line \<le> sampleCount"
    "is_boundary sampleCount g (NextQueryOffsetForLine g ?line)"
    unfolding grouping_contract_def by blast+
  have ge: "e \<le> ?line"
    using scaled_ge [OF gr, of e] e by simp
  have "e < NextQueryOffsetForLine g ?line"
  proof (cases "\<forall>line<sampleCount. line < NextQueryOffsetForLine g line")
    case True
    show ?thesis
    proof (cases "?line < sampleCount")
      case True
      with \<open>\<forall>line<sampleCount. line < NextQueryOffsetForLine g line\<close>
      have "?line < NextQueryOffsetForLine g ?line" by blast
      with ge show ?thesis by linarith
    next
      case False
      with le have "?line = sampleCount" by linarith
      with n(1) e show ?thesis by linarith
    qed
  next
    case False
    with p have "1 \<le> of_nat m * (growthRate - 1)" by blast
    from scaled_gt [OF gr _ this e(1)] e have "e < ?line" by simp
    with n(1) show ?thesis by linarith
  qed
  with n show ?thesis by blast
qed

lemma CreateFolds_loop_correct:
  assumes c: "grouping_contract sampleCount g"
    and gr: "1 < growthRate" "of_nat sampleCount * growthRate \<le> 2 ^ 32 - 1"
    and p: "(\<forall>line<sampleCount. line < NextQueryOffsetForLine g line)
            \<or> 1 \<le> of_nat m * (growthRate - 1)"
  shows "folds_so_far sampleCount g m folds \<Longrightarrow>
     \<exists>result. CreateFolds_loop g sampleCount growthRate folds = Some result
       \<and> ordered_folds sampleCount g result"
proof (induction "sampleCount - Right (QualityEvaluateSamples (last folds))"
    arbitrary: folds rule: less_induct)
  case less
  let ?e = "Right (QualityEvaluateSamples (last folds))"
  from less.prems have inv: "folds \<noteq> []"
    "list_all (\<lambda>fold. Left (EstimateSamples fold) = 0) folds"
    "successively follows folds" "m \<le> ?e" "?e \<le> sampleCount"
    "list_all (on_boundaries sampleCount g) folds"
    unfolding folds_so_far_def by blast+
  show ?case
  proof (cases "?e < sampleCount")
    case False
    with inv have "?e = sampleCount" by linarith
    with inv have "ordered_folds sampleCount g folds"
      unfolding ordered_folds_def by blast
    moreover from False have "CreateFolds_loop g sampleCount growthRate folds = Some folds"
      by (subst CreateFolds_loop.simps) simp
    ultimately show ?thesis by blast
  next
    case True
    let ?end = "NextQueryOffsetForLine g (min (scaled ?e growthRate) sampleCount)"
    let ?fold = "\<lparr>EstimateSamples = \<lparr>Left = 0, Right = ?e\<rparr>,
                  QualityEvaluateSamples = \<lparr>Left = ?e, Right = ?end\<rparr>\<rparr>"
    from next_end [OF c gr p inv(4) True]
    have n: "?e < ?end" "?end \<le> sampleCount" "is_boundary sampleCount g ?end"
      by blast+
    from inv(1,6) have "on_boundaries sampleCount g (last folds)"
      by (simp add: list_all_iff)
    then have be: "is_boundary sampleCount g ?e"
      by (simp add: on_boundaries_def)
    from c have b0: "is_boundary sampleCount g 0"
      unfolding grouping_contract_def is_boundary_def by blast
    have "folds_so_far sampleCount g m (folds @ [?fold])"
      unfolding folds_so_far_def
      using inv n be b0
      by (simp add: successively_append_iff follows_def on_boundaries_def)
    moreover have "sampleCount - Right (QualityEvaluateSamples (last (folds @ [?fold])))
        < sampleCount - ?e"
      using n True by simp
    ultimately have "\<exists>result. CreateFolds_loop g sampleCount growthRate (folds @ [?fold])
          = Some result \<and> ordered_folds sampleCount g result"
      by (rule less.hyps [rotated])
    moreover from True
    have "CreateFolds_loop g sampleCount growthRate folds
        = CreateFolds_loop g sampleCount growthRate (folds @ [?fold])"
      by (subst CreateFolds_loop.simps) (simp add: Let_def)
    ultimately show ?thesis by simp
  qed
qed

lemma CreateFolds_loop_partial:
  assumes "CreateFolds_loop g sampleCount growthRate folds = Some result"
  shows "\<not> stalled g sampleCount growthRate folds
     \<and> (grouping_contract sampleCount g \<and> 1 < growthRate
          \<and> of_nat sampleCount * growthRate \<le> 2 ^ 32 - 1
          \<and> folds_so_far sampleCount g 0 folds
        \<longrightarrow> ordered_folds sampleCount g result)"
proof -
  define P where "P = (\<lambda>g sampleCount growthRate folds result.
     \<not> stalled g sampleCount growthRate folds
     \<and> (grouping_contract sampleCount g \<and> 1 < growthRate
          \<and> of_nat sampleCount * growthRate \<le> 2 ^ 32 - 1
          \<and> folds_so_far sampleCount g 0 folds
        \<longrightarrow> ordered_folds sampleCount g result))"
  have "P g sampleCount growthRate folds result"
  proof (rule CreateFolds_loop.raw_induct [where P = P, rotated 1, OF assms])
    fix loop :: "IQueriesGrouping \<Rightarrow> nat \<Rightarrow> rat \<Rightarrow> TFold list \<Rightarrow> TFold list option"
      and g :: IQueriesGrouping and sampleCount :: nat and growthRate :: rat
      and folds result :: "TFold list"
    let ?e = "Right (QualityEvaluateSamples (last folds))"
    let ?end = "NextQueryOffsetForLine g (min (scaled ?e growthRate) sampleCount)"
    let ?fold = "\<lparr>EstimateSamples = \<lparr>Left = 0, Right = ?e\<rparr>,
                  QualityEvaluateSamples = \<lparr>Left = ?e, Right = ?end\<rparr>\<rparr>"
    assume IH: "\<And>g sampleCount growthRate folds result.
        loop g sampleCount growthRate folds = Some result
        \<Longrightarrow> P g sampleCount growthRate folds result"
      and eq: "(if ?e < sampleCount
          then let learnSlice = \<lparr>Left = 0, Right = ?e\<rparr>;
                   end = ?end;
                   testSlice = \<lparr>Left = ?e, Right = end\<rparr>
               in loop g sampleCount growthRate
                    (folds @ [\<lparr>EstimateSamples = learnSlice, QualityEvaluateSamples = testSlice\<rparr>])
          else Some folds) = Some result"
    show "P g sampleCount growthRate folds result"
    proof (cases "?e < sampleCount")
      case False
      with eq have r: "result = folds" by simp
      from False have "\<not> stalled g sampleCount growthRate folds"
        by (simp add: stalled_def)
      moreover have "ordered_folds sampleCount g result"
        if "folds_so_far sampleCount g 0 folds"
        using that False unfolding r folds_so_far_def ordered_folds_def by auto
      ultimately show ?thesis unfolding P_def by blast
    next
      case True
      with eq have rec: "loop g sampleCount growthRate (folds @ [?fold]) = Some result"
        by (simp add: Let_def)
      from IH [OF rec]
      have n: "\<not> stalled g sampleCount growthRate (folds @ [?fold])"
        and o: "grouping_contract sampleCount g \<and> 1 < growthRate
            \<and> of_nat sampleCount * growthRate \<le> 2 ^ 32 - 1
            \<and> folds_so_far sampleCount g 0 (folds @ [?fold])
          \<longrightarrow> ordered_folds sampleCount g result"
        unfolding P_def by blast+
      have s: "\<not> stalled g sampleCount growthRate folds"
      proof
        assume "stalled g sampleCount growthRate folds"
        then have "?end = ?e" by (simp add: stalled_def)
        with True have "stalled g sampleCount growthRate (folds @ [?fold])"
          by (simp add: stalled_def)
        with n show False by blast
      qed
      have "ordered_folds sampleCount g result"
        if c: "grouping_contract sampleCount g" and gr: "1 < growthRate"
          "of_nat sampleCount * growthRate \<le> 2 ^ 32 - 1"
          and f: "folds_so_far sampleCount g 0 folds"
      proof -
        from f have inv: "folds \<noteq> []"
          "list_all (\<lambda>next. Left (EstimateSamples next) = 0) folds"
          "successively follows folds" "?e \<le> sampleCount"
          "list_all (on_boundaries sampleCount g) folds"
          unfolding folds_so_far_def by blast+
        have "min (scaled ?e growthRate) sampleCount \<le> sampleCount" by simp
        with c have t: "min (scaled ?e growthRate) sampleCount \<le> ?end" "?end \<le> sampleCount"
          "is_boundary sampleCount g ?end"
          unfolding grouping_contract_def by blast+
        from scaled_ge [OF gr inv(4)] True t(1) have "?e \<le> ?end" by simp
        moreover from s True have "?end \<noteq> ?e" by (simp add: stalled_def)
        ultimately have lt: "?e < ?end" by simp
        from inv(1,5) have "on_boundaries sampleCount g (last folds)"
          by (simp add: list_all_iff)
        then have be: "is_boundary sampleCount g ?e"
          by (simp add: on_boundaries_def)
        from c have b0: "is_boundary sampleCount g 0"
          unfolding grouping_contract_def is_boundary_def by blast
        have "folds_so_far sampleCount g 0 (folds @ [?fold])"
          unfolding folds_so_far_def
          using inv t lt be b0
          by (simp add: successively_append_iff follows_def on_boundaries_def)
        with o c gr show ?thesis by blast
      qed
      with s show ?thesis unfolding P_def by blast
    qed
  qed
  then show ?thesis unfolding P_def .
qed

lemma CreateFolds_loop_stalls:
  "stalled g sampleCount growthRate folds \<Longrightarrow>
     CreateFolds_loop g sampleCount growthRate folds = None"
  using CreateFolds_loop_partial [of g sampleCount growthRate folds]
  by (cases "CreateFolds_loop g sampleCount growthRate folds") auto

lemma MinEstimationSize_le: "0 < docCount \<Longrightarrow> MinEstimationSize Config docCount \<le> docCount"
proof -
  assume d: "0 < docCount"
  have "CeilDivide docCount 262144 \<le> docCount" if "\<not> docCount < 500"
  proof -
    have "docCount div 262144 < docCount" using that by (intro div_less_dividend) simp_all
    then show ?thesis by (simp add: CeilDivide_cases)
  qed
  moreover have "min (MinFoldSize Config) (docCount div 50) \<le> docCount"
    by (rule le_trans [OF min.cobounded2]) simp
  ultimately show ?thesis using d
    by (simp add: MinEstimationSize_def Let_def ui32_def del: min.bounded_iff min_less_iff_conj)
qed

lemma CreateFolds_minEstimationSize_boundary:
  assumes c: "grouping_contract sampleCount g" and N: "0 < sampleCount"
  shows "CreateFolds_minEstimationSize Config devCount sampleCount g \<le> sampleCount
     \<and> is_boundary sampleCount g (CreateFolds_minEstimationSize Config devCount sampleCount g)"
proof -
  let ?a = "NextQueryOffsetForLine g (MinEstimationSize Config sampleCount)"
  let ?i = "min (ui32 (16 * devCount)) (GetQueryCount g div 2)"
  from c MinEstimationSize_le [OF N, of Config]
  have a: "?a \<le> sampleCount" "is_boundary sampleCount g ?a"
    unfolding grouping_contract_def by blast+
  from c have "0 < GetQueryCount g" unfolding grouping_contract_def by blast
  then have "GetQueryCount g div 2 < GetQueryCount g" by simp
  then have "?i < GetQueryCount g" by (rule le_less_trans [OF min.cobounded2])
  with c have b: "GetQueryOffset g ?i \<le> sampleCount" "is_boundary sampleCount g (GetQueryOffset g ?i)"
    unfolding grouping_contract_def is_boundary_def by blast+
  from a b show ?thesis
    by (simp add: CreateFolds_minEstimationSize_def Let_def max_def)
qed

text \<open>
  Let the three checks of \<open>CreateFolds\<close> pass. In \<open>Plain\<close> mode the result is the one fold
  whose two ranges are \<open>(0, sampleCount)\<close>. In the ordered mode, for a grouping that meets
  \<open>grouping_contract\<close>, a positive sample count and a product of the sample count and the
  growth rate that is at most the largest \<open>ui32\<close>, every list of folds that \<open>CreateFolds\<close>
  returns is \<open>ordered_folds\<close>: every estimate range starts at 0, each fold estimates on
  what the fold before it has covered and covers strictly more, the last fold covers all
  rows, and every end of a range is a group boundary. \<open>CreateFolds\<close> does return when every
  round of the loop moves on, which it does when the next query offset for a line before
  the end lies after the line, and also when the minimum estimation size times
  \<open>growthRate - 1\<close> is at least 1.
\<close>

lemma CreateFolds_folds_in_range:
  assumes q: "ui32 (4 * devCount) \<le> GetQueryCount g"
    and m: "0 < CreateFolds_minEstimationSize Config devCount sampleCount g"
    and gr: "1 < growthRate"
  shows "(BoostingType Config = Plain \<longrightarrow>
            CreateFolds Config devCount sampleCount growthRate g =
              Some (Inr [\<lparr>EstimateSamples = \<lparr>Left = 0, Right = sampleCount\<rparr>,
                          QualityEvaluateSamples = \<lparr>Left = 0, Right = sampleCount\<rparr>\<rparr>]))
     \<and> (BoostingType Config \<noteq> Plain
          \<and> 0 < sampleCount \<and> of_nat sampleCount * growthRate \<le> 2 ^ 32 - 1
          \<and> grouping_contract sampleCount g
        \<longrightarrow> (\<forall>folds. CreateFolds Config devCount sampleCount growthRate g = Some (Inr folds)
                 \<longrightarrow> ordered_folds sampleCount g folds)
            \<and> ((\<forall>line<sampleCount. line < NextQueryOffsetForLine g line)
                 \<or> 1 \<le> of_nat (CreateFolds_minEstimationSize Config devCount sampleCount g)
                          * (growthRate - 1)
               \<longrightarrow> (\<exists>folds. CreateFolds Config devCount sampleCount growthRate g
                              = Some (Inr folds))))"
proof -
  let ?m = "CreateFolds_minEstimationSize Config devCount sampleCount g"
  let ?testEnd = "NextQueryOffsetForLine g (min (scaled ?m growthRate) sampleCount)"
  let ?first = "\<lparr>EstimateSamples = \<lparr>Left = 0, Right = ?m\<rparr>,
                 QualityEvaluateSamples = \<lparr>Left = ?m, Right = ?testEnd\<rparr>\<rparr>"
  have plain: "CreateFolds Config devCount sampleCount growthRate g =
      Some (Inr [\<lparr>EstimateSamples = \<lparr>Left = 0, Right = sampleCount\<rparr>,
                  QualityEvaluateSamples = \<lparr>Left = 0, Right = sampleCount\<rparr>\<rparr>])"
    if "BoostingType Config = Plain"
    using that q m gr by (simp add: CreateFolds_def Let_def)
  have ordered: "(\<forall>folds. CreateFolds Config devCount sampleCount growthRate g = Some (Inr folds)
                 \<longrightarrow> ordered_folds sampleCount g folds)
       \<and> ((\<forall>line<sampleCount. line < NextQueryOffsetForLine g line)
             \<or> 1 \<le> of_nat ?m * (growthRate - 1)
           \<longrightarrow> (\<exists>folds. CreateFolds Config devCount sampleCount growthRate g
                          = Some (Inr folds)))"
    if o: "BoostingType Config \<noteq> Plain" and N: "0 < sampleCount"
      and fit: "of_nat sampleCount * growthRate \<le> 2 ^ 32 - 1"
      and c: "grouping_contract sampleCount g"
  proof -
    from CreateFolds_minEstimationSize_boundary [OF c N, of Config devCount]
    have mN: "?m \<le> sampleCount" and mb: "is_boundary sampleCount g ?m" by blast+
    have "min (scaled ?m growthRate) sampleCount \<le> sampleCount" by simp
    with c have t: "min (scaled ?m growthRate) sampleCount \<le> ?testEnd"
      "?testEnd \<le> sampleCount" "is_boundary sampleCount g ?testEnd"
      unfolding grouping_contract_def by blast+
    from scaled_ge [OF gr fit mN] mN t(1) have mt: "?m \<le> ?testEnd" by simp
    from c have b0: "is_boundary sampleCount g 0"
      unfolding grouping_contract_def is_boundary_def by blast
    have first: "folds_so_far sampleCount g ?m [?first]"
      unfolding folds_so_far_def using mt t mb b0
      by (simp add: on_boundaries_def)
    have first0: "folds_so_far sampleCount g 0 [?first]"
      unfolding folds_so_far_def using mt t mb b0
      by (simp add: on_boundaries_def)
    from q m gr o
    have eq: "CreateFolds Config devCount sampleCount growthRate g
        = map_option Inr (CreateFolds_loop g sampleCount growthRate [?first])"
      by (simp add: CreateFolds_def Let_def)
    have "ordered_folds sampleCount g folds"
      if "CreateFolds Config devCount sampleCount growthRate g = Some (Inr folds)" for folds
    proof -
      from that have "CreateFolds_loop g sampleCount growthRate [?first] = Some folds"
        unfolding eq by auto
      from CreateFolds_loop_partial [OF this] c gr fit first0 show ?thesis by blast
    qed
    moreover have "\<exists>folds. CreateFolds Config devCount sampleCount growthRate g
        = Some (Inr folds)"
      if p: "(\<forall>line<sampleCount. line < NextQueryOffsetForLine g line)
          \<or> 1 \<le> of_nat ?m * (growthRate - 1)"
    proof -
      from CreateFolds_loop_correct [OF c gr fit p first]
      obtain folds where "CreateFolds_loop g sampleCount growthRate [?first] = Some folds"
        by blast
      then show ?thesis unfolding eq by simp
    qed
    ultimately show ?thesis by blast
  qed
  from plain ordered show ?thesis by blast
qed

lemma equalGroups_contract:
  assumes "0 < groupSize" "0 < groupCount"
  shows "grouping_contract (groupSize * groupCount) (equalGroups groupSize groupCount)"
    and "\<forall>line<groupSize * groupCount.
           line < NextQueryOffsetForLine (equalGroups groupSize groupCount) line"
proof -
  have gt: "line < groupSize * Suc (line div groupSize)" for line
    using assms(1) dividend_less_times_div [of groupSize line] by (simp add: ac_simps)
  have b: "is_boundary (groupSize * groupCount) (equalGroups groupSize groupCount)
      (min (groupSize * Suc (line div groupSize)) (groupSize * groupCount))" for line
  proof (cases "groupSize * Suc (line div groupSize) < groupSize * groupCount")
    case True
    then have "Suc (line div groupSize) < groupCount" by (simp only: mult_less_cancel1)
    with True show ?thesis
      unfolding is_boundary_def equalGroups_def by (auto simp: min_def)
  next
    case False
    then show ?thesis by (simp add: is_boundary_def min_def)
  qed
  show "grouping_contract (groupSize * groupCount) (equalGroups groupSize groupCount)"
    unfolding grouping_contract_def
  proof (intro conjI allI impI)
    show "0 < GetQueryCount (equalGroups groupSize groupCount)"
      using assms by (simp add: equalGroups_def)
    show "GetQueryOffset (equalGroups groupSize groupCount) 0 = 0"
      by (simp add: equalGroups_def)
    show "GetQueryOffset (equalGroups groupSize groupCount) i \<le> groupSize * groupCount"
      if "i < GetQueryCount (equalGroups groupSize groupCount)" for i
      using that by (simp add: equalGroups_def)
    show "line \<le> NextQueryOffsetForLine (equalGroups groupSize groupCount) line"
      if "line \<le> groupSize * groupCount" for line
      using that gt [of line] by (simp add: equalGroups_def)
    show "NextQueryOffsetForLine (equalGroups groupSize groupCount) line \<le> groupSize * groupCount"
      for line
      by (simp add: equalGroups_def)
    show "is_boundary (groupSize * groupCount) (equalGroups groupSize groupCount)
        (NextQueryOffsetForLine (equalGroups groupSize groupCount) line)" for line
      using b [of line] by (simp add: equalGroups_def)
  qed
  show "\<forall>line<groupSize * groupCount.
      line < NextQueryOffsetForLine (equalGroups groupSize groupCount) line"
    using gt by (simp add: equalGroups_def)
qed

lemma CreateFolds_example:
  "CreateFolds sampleOptions 1 1000 2 (equalGroups 10 100) =
     Some (Inr
      [\<lparr>EstimateSamples = \<lparr>Left = 0, Right = 30\<rparr>,
         QualityEvaluateSamples = \<lparr>Left = 30, Right = 70\<rparr>\<rparr>,
       \<lparr>EstimateSamples = \<lparr>Left = 0, Right = 70\<rparr>,
         QualityEvaluateSamples = \<lparr>Left = 70, Right = 150\<rparr>\<rparr>,
       \<lparr>EstimateSamples = \<lparr>Left = 0, Right = 150\<rparr>,
         QualityEvaluateSamples = \<lparr>Left = 150, Right = 310\<rparr>\<rparr>,
       \<lparr>EstimateSamples = \<lparr>Left = 0, Right = 310\<rparr>,
         QualityEvaluateSamples = \<lparr>Left = 310, Right = 630\<rparr>\<rparr>,
       \<lparr>EstimateSamples = \<lparr>Left = 0, Right = 630\<rparr>,
         QualityEvaluateSamples = \<lparr>Left = 630, Right = 1000\<rparr>\<rparr>])"
  by (simp add: CreateFolds_def CreateFolds_minEstimationSize_def MinEstimationSize_def
      sampleOptions_def equalGroups_def CeilDivide_def IntLog2.simps ui32_def scaled_def
      nearest_double_numeral double_to_ui32_def CreateFolds_loop.simps Let_def)

text \<open>
  The same rows with the \<open>double\<close> nearest to 2.4 as the growth rate: the fold that
  estimates on the first 200 rows is evaluated up to the boundary after row 480.
\<close>

lemma CreateFolds_example_rounded:
  "CreateFolds sampleOptions 1 1000 (nearest_double (12 / 5)) (equalGroups 10 100) =
     Some (Inr
      [\<lparr>EstimateSamples = \<lparr>Left = 0, Right = 30\<rparr>,
         QualityEvaluateSamples = \<lparr>Left = 30, Right = 80\<rparr>\<rparr>,
       \<lparr>EstimateSamples = \<lparr>Left = 0, Right = 80\<rparr>,
         QualityEvaluateSamples = \<lparr>Left = 80, Right = 200\<rparr>\<rparr>,
       \<lparr>EstimateSamples = \<lparr>Left = 0, Right = 200\<rparr>,
         QualityEvaluateSamples = \<lparr>Left = 200, Right = 490\<rparr>\<rparr>,
       \<lparr>EstimateSamples = \<lparr>Left = 0, Right = 490\<rparr>,
         QualityEvaluateSamples = \<lparr>Left = 490, Right = 1000\<rparr>\<rparr>])"
  unfolding nearest_double_12_5
  by (simp add: CreateFolds_def CreateFolds_minEstimationSize_def MinEstimationSize_def
      sampleOptions_def equalGroups_def CeilDivide_def IntLog2.simps ui32_def scaled_def
      double_to_ui32_def nearest_double_def binade_def bitlen_def compute_floorlog
      round_half_even_def power_int_def power_one_over floor_rat_numeral
      CreateFolds_loop.simps Let_def)

lemma CreateFolds_folds_in_range_example:
  "ui32 (4 * 1) \<le> GetQueryCount (equalGroups 10 100)
   \<and> 0 < CreateFolds_minEstimationSize sampleOptions 1 1000 (equalGroups 10 100)
   \<and> (1::rat) < 2
   \<and> BoostingType sampleOptions \<noteq> Plain
   \<and> (0::nat) < 1000 \<and> of_nat 1000 * (2::rat) \<le> 2 ^ 32 - 1
   \<and> grouping_contract 1000 (equalGroups 10 100)
   \<and> (\<exists>folds. CreateFolds sampleOptions 1 1000 2 (equalGroups 10 100) = Some (Inr folds)
         \<and> length folds = 5 \<and> ordered_folds 1000 (equalGroups 10 100) folds)"
proof -
  have q: "ui32 (4 * 1) \<le> GetQueryCount (equalGroups 10 100)"
    by (simp add: ui32_def equalGroups_def)
  have m: "CreateFolds_minEstimationSize sampleOptions 1 1000 (equalGroups 10 100) = 30"
    by (simp add: CreateFolds_minEstimationSize_def MinEstimationSize_def
        sampleOptions_def equalGroups_def CeilDivide_def IntLog2.simps ui32_def)
  have o: "BoostingType sampleOptions \<noteq> Plain"
    by (simp add: sampleOptions_def)
  have c: "grouping_contract 1000 (equalGroups 10 100)"
    using equalGroups_contract (1) [of 10 100] by simp
  have s: "\<forall>line<1000. line < NextQueryOffsetForLine (equalGroups 10 100) line"
    using equalGroups_contract (2) [of 10 100] by simp
  from CreateFolds_folds_in_range [of 1 "equalGroups 10 100" sampleOptions 1000 2] q m o c s
  have a: "\<forall>folds. CreateFolds sampleOptions 1 1000 2 (equalGroups 10 100) = Some (Inr folds)
        \<longrightarrow> ordered_folds 1000 (equalGroups 10 100) folds"
    and "\<exists>folds. CreateFolds sampleOptions 1 1000 2 (equalGroups 10 100) = Some (Inr folds)"
    by simp_all
  then obtain folds
    where f: "CreateFolds sampleOptions 1 1000 2 (equalGroups 10 100) = Some (Inr folds)"
    by blast
  with a have r: "ordered_folds 1000 (equalGroups 10 100) folds" by blast
  from f have "length folds = 5" unfolding CreateFolds_example by auto
  with f r
  have "\<exists>folds. CreateFolds sampleOptions 1 1000 2 (equalGroups 10 100) = Some (Inr folds)
      \<and> length folds = 5 \<and> ordered_folds 1000 (equalGroups 10 100) folds"
    by blast
  with q m o c show ?thesis by simp
qed

text \<open>
  The rows of the input below are 5000000 groups of one row each, the growth rate is 1000
  and the minimum fold size 4295, on one device. The grouping meets \<open>grouping_contract\<close>
  and the three checks pass.
\<close>

lemma overflow_input_valid:
  "grouping_contract 5000000 (equalGroups 1 5000000)
   \<and> ui32 (4 * 1) \<le> GetQueryCount (equalGroups 1 5000000)
   \<and> 0 < CreateFolds_minEstimationSize (sampleOptions\<lparr>MinFoldSize := 4295\<rparr>) 1 5000000
           (equalGroups 1 5000000)
   \<and> (1::rat) < 1000"
proof -
  have "grouping_contract 5000000 (equalGroups 1 5000000)"
    using equalGroups_contract (1) [of 1 5000000] by simp
  then show ?thesis
    by (simp add: CreateFolds_minEstimationSize_def MinEstimationSize_def
        sampleOptions_def equalGroups_def CeilDivide_def IntLog2.simps ui32_def)
qed

text \<open>
  C2. At that input the second fold of \<open>CreateFolds\<close> ends before it starts. The first
  fold is evaluated on the rows from 4296 to 4296001. The product of 4296001 and 1000 is
  4296001000, which is not a \<open>ui32\<close>: the conversion keeps 1033704, and the fold that
  estimates on the first 4296001 rows is evaluated on the range from 4296001 to 1033705.
  So the ends of the evaluate ranges are 4296001, 1033705 and 5000000, which is not an
  increasing sequence, and the folds are not \<open>ordered_folds\<close>.
\<close>

theorem CreateFolds_overflow:
  "CreateFolds (sampleOptions\<lparr>MinFoldSize := 4295\<rparr>) 1 5000000 1000 (equalGroups 1 5000000) =
     Some (Inr
      [\<lparr>EstimateSamples = \<lparr>Left = 0, Right = 4296\<rparr>,
         QualityEvaluateSamples = \<lparr>Left = 4296, Right = 4296001\<rparr>\<rparr>,
       \<lparr>EstimateSamples = \<lparr>Left = 0, Right = 4296001\<rparr>,
         QualityEvaluateSamples = \<lparr>Left = 4296001, Right = 1033705\<rparr>\<rparr>,
       \<lparr>EstimateSamples = \<lparr>Left = 0, Right = 1033705\<rparr>,
         QualityEvaluateSamples = \<lparr>Left = 1033705, Right = 5000000\<rparr>\<rparr>])
   \<and> \<not> ordered_folds 5000000 (equalGroups 1 5000000)
      [\<lparr>EstimateSamples = \<lparr>Left = 0, Right = 4296\<rparr>,
         QualityEvaluateSamples = \<lparr>Left = 4296, Right = 4296001\<rparr>\<rparr>,
       \<lparr>EstimateSamples = \<lparr>Left = 0, Right = 4296001\<rparr>,
         QualityEvaluateSamples = \<lparr>Left = 4296001, Right = 1033705\<rparr>\<rparr>,
       \<lparr>EstimateSamples = \<lparr>Left = 0, Right = 1033705\<rparr>,
         QualityEvaluateSamples = \<lparr>Left = 1033705, Right = 5000000\<rparr>\<rparr>]"
proof -
  have "CreateFolds (sampleOptions\<lparr>MinFoldSize := 4295\<rparr>) 1 5000000 1000 (equalGroups 1 5000000) =
     Some (Inr
      [\<lparr>EstimateSamples = \<lparr>Left = 0, Right = 4296\<rparr>,
         QualityEvaluateSamples = \<lparr>Left = 4296, Right = 4296001\<rparr>\<rparr>,
       \<lparr>EstimateSamples = \<lparr>Left = 0, Right = 4296001\<rparr>,
         QualityEvaluateSamples = \<lparr>Left = 4296001, Right = 1033705\<rparr>\<rparr>,
       \<lparr>EstimateSamples = \<lparr>Left = 0, Right = 1033705\<rparr>,
         QualityEvaluateSamples = \<lparr>Left = 1033705, Right = 5000000\<rparr>\<rparr>])"
    by (simp add: CreateFolds_def CreateFolds_minEstimationSize_def MinEstimationSize_def
        sampleOptions_def equalGroups_def CeilDivide_def IntLog2.simps ui32_def scaled_def
        nearest_double_numeral double_to_ui32_def CreateFolds_loop.simps Let_def)
  moreover have "\<not> ordered_folds 5000000 (equalGroups 1 5000000)
      [\<lparr>EstimateSamples = \<lparr>Left = 0, Right = 4296\<rparr>,
         QualityEvaluateSamples = \<lparr>Left = 4296, Right = 4296001\<rparr>\<rparr>,
       \<lparr>EstimateSamples = \<lparr>Left = 0, Right = 4296001\<rparr>,
         QualityEvaluateSamples = \<lparr>Left = 4296001, Right = 1033705\<rparr>\<rparr>,
       \<lparr>EstimateSamples = \<lparr>Left = 0, Right = 1033705\<rparr>,
         QualityEvaluateSamples = \<lparr>Left = 1033705, Right = 5000000\<rparr>\<rparr>]"
    by (simp add: ordered_folds_def follows_def)
  ultimately show ?thesis by (rule conjI)
qed

section \<open>Errors and loops over lists\<close>

lemma andThen_Inr_iff: "andThen r f = Inr y \<longleftrightarrow> (\<exists>x. r = Inr x \<and> f x = Inr y)"
  by (cases r) simp_all

lemma andThen_Inl_iff: "andThen r f = Inl e \<longleftrightarrow> r = Inl e \<or> (\<exists>x. r = Inr x \<and> f x = Inl e)"
  by (cases r) simp_all

lemma collect_Inr_iff: "collect rs = Inr ys \<longleftrightarrow> rs = map Inr ys"
proof (induction rs arbitrary: ys)
  case Nil
  show ?case by auto
next
  case (Cons r rs)
  show ?case
    by (cases r) (auto simp: Cons.IH andThen_Inr_iff)
qed

lemma collect_map_Inr:
  "collect (map F xs) = Inr ys \<Longrightarrow>
     length ys = length xs \<and> (\<forall>i<length xs. F (xs ! i) = Inr (ys ! i))"
proof -
  assume "collect (map F xs) = Inr ys"
  then have e: "map F xs = map Inr ys" by (simp add: collect_Inr_iff)
  then have l: "length ys = length xs" by (metis length_map)
  moreover have "F (xs ! i) = Inr (ys ! i)" if "i < length xs" for i
    using e l that by (metis nth_map)
  ultimately show ?thesis by blast
qed

lemma collect_Inl: "collect rs = Inl e \<Longrightarrow> Inl e \<in> set rs"
proof (induction rs)
  case Nil
  then show ?case by simp
next
  case (Cons r rs)
  then show ?case by (cases r) (auto simp: andThen_Inl_iff)
qed

lemma collect_map_Inl: "collect (map F xs) = Inl e \<Longrightarrow> \<exists>x\<in>set xs. F x = Inl e"
  by (drule collect_Inl) auto

lemma index_Inr_iff: "index xs i = Inr x \<longleftrightarrow> i < length xs \<and> xs ! i = x"
  by (auto simp: index_def)

section \<open>The fallback of the plain mode\<close>

lemma Fit_single_permutation:
  "Fit_estimationPermutation 1 = 0" "Fit_learnPermutationCount 1 = 1"
  "Fit_learnPermutationId 1 rnd = 0"
  "Fit_estimationPermutation (Suc 0) = 0" "Fit_learnPermutationCount (Suc 0) = Suc 0"
  "Fit_learnPermutationId (Suc 0) rnd = 0"
  by (simp_all add: Fit_estimationPermutation_def Fit_learnPermutationCount_def
      Fit_learnPermutationId_def ui32_def)

lemma Fit_rescaledModels_plain:
  assumes plain: "BoostingType Config = Plain"
    and r: "Fit_rescaledModels Weak Config 1 allSlice permutationFolds iteration rnd cursor
              = Inr (weakModelStructure, tasks, rescaled)"
  shows "map TaskDst tasks = [FoldModel 0 0]
     \<and> FoldData rescaled =
         [[Rescale Weak (LearningRate Config) (EstimateLeaves Weak weakModelStructure tasks 0)]]"
proof -
  from r obtain taskFolds targets defaultModels
    where i: "index permutationFolds 0 = Inr taskFolds"
      and t: "Fit_searchTargets Config cursor 0 taskFolds = Inr targets"
      and s: "weakModelStructure = SearchStructure Weak rnd 0 iteration targets"
      and d: "Fit_defaultModels (DefaultModel Weak weakModelStructure) 1 permutationFolds
                = Inr defaultModels"
      and k: "Fit_estimationTasks Config 1 allSlice permutationFolds cursor = Inr tasks"
      and e: "rescaled = Foreach (Rescale Weak (LearningRate Config))
                (Fit_estimate Weak weakModelStructure tasks defaultModels)"
    unfolding Fit_rescaledModels_def Let_def Fit_single_permutation
    by (auto simp: andThen_Inr_iff)
  from t plain have l: "length taskFolds = 1"
    by (auto simp: Fit_searchTargets_def split: if_splits)
  from d i l have dm: "FoldData defaultModels = [[DefaultModel Weak weakModelStructure]]"
    by (auto simp: Fit_defaultModels_def andThen_Inr_iff)
  from k i l plain have ts: "map TaskDst tasks = [FoldModel 0 0]"
    by (auto simp: Fit_estimationTasks_def Let_def Fit_single_permutation andThen_Inr_iff)
  then have lt: "length tasks = 1" by (metis length_map length_Cons list.size(3) One_nat_def)
  from ts lt have t0: "TaskDst (tasks ! 0) = FoldModel 0 0"
    by (metis nth_map nth_Cons_0 zero_less_one)
  have "FoldData (Fit_estimate Weak weakModelStructure tasks defaultModels)
      = [[EstimateLeaves Weak weakModelStructure tasks 0]]"
    using lt t0 dm by (simp add: Fit_estimate_def Put_def)
  with e ts show ?thesis by (simp add: Foreach_def)
qed

text \<open>
  C4. In \<open>Plain\<close> mode with one permutation (the estimation permutation is permutation 0),
  an iteration of \<open>Fit\<close> that succeeds has given the estimator exactly one task, the one of
  fold 0 of permutation 0, and no task for the estimation model; and the weak model it
  appends to the result is the model of fold 0 of permutation 0 after the rescaling, the
  estimate for that task rescaled by the learning rate.
\<close>

theorem Fit_plain_fallback:
  assumes plain: "BoostingType Config = Plain"
    and ok: "Fit_iteration Weak Config 1 hasTestDataSet allSlice permutationFolds
               iteration rnd st = Inr st'"
  shows "\<exists>weakModelStructure tasks rescaled m.
       Fit_rescaledModels Weak Config 1 allSlice permutationFolds iteration rnd (Cursor st)
         = Inr (weakModelStructure, tasks, rescaled)
     \<and> map TaskDst tasks = [FoldModel 0 0]
     \<and> Get rescaled 0 0 = Inr m
     \<and> m = Rescale Weak (LearningRate Config) (EstimateLeaves Weak weakModelStructure tasks 0)
     \<and> Result st' = Result st @ [m]"
proof -
  from ok obtain weakModelStructure tasks rescaled models
    where r: "Fit_rescaledModels Weak Config 1 allSlice permutationFolds iteration rnd (Cursor st)
               = Inr (weakModelStructure, tasks, rescaled)"
      and f: "Fit_fallback Config 0 rescaled = Inr models"
      and a: "Result st' = Result st @ [Estimation models]"
    unfolding Fit_iteration_def Let_def Fit_single_permutation
    by (auto simp: andThen_Inr_iff)
  let ?m = "Rescale Weak (LearningRate Config) (EstimateLeaves Weak weakModelStructure tasks 0)"
  from Fit_rescaledModels_plain [OF plain r]
  have ts: "map TaskDst tasks = [FoldModel 0 0]" and fd: "FoldData rescaled = [[?m]]"
    by blast+
  from fd have g: "Get rescaled 0 0 = Inr ?m" by (simp add: Get_def)
  from f plain fd have "Estimation models = ?m"
    by (auto simp: Fit_fallback_def index_def)
  with a r ts g show ?thesis
    by (intro exI [of _ weakModelStructure] exI [of _ tasks] exI [of _ rescaled] exI [of _ ?m])
      simp
qed

lemma plainState_eq: "plainState = plainStateAt 0 []"
  by (simp add: plainState_def plainStateAt_def)

lemma plain_iteration_at:
  "Fit_iteration sampleLearner plainOptions (Suc 0) False \<lparr>Left = 0, Right = 1000\<rparr> plainFolds
     iteration r (plainStateAt a ms) = Inr (plainStateAt (a + 3 / 100) (ms @ [3 / 100]))"
  by (simp add: Fit_iteration_def Fit_rescaledModels_def Fit_single_permutation
      Fit_searchTargets_def Fit_defaultModels_def Fit_estimationTasks_def Fit_estimate_def
      Fit_fallback_def Fit_testCursorUpdate_def Fit_foldCursorUpdates_def
      Fit_foldCursorUpdate_def Fit_storeCursors_def GetObjectsSlice_def
      index_def Get_def Put_def Foreach_def
      sampleLearner_def plainOptions_def sampleOptions_def plainFolds_def plainStateAt_def)

lemma plain_iteration:
  "Fit_iteration sampleLearner plainOptions 1 False \<lparr>Left = 0, Right = 1000\<rparr> plainFolds 0 7
     plainState = Inr (plainStateAt (3 / 100) [3 / 100])"
  using plain_iteration_at [of 0 7 0 "[]"] by (simp add: plainState_eq)

theorem Fit_plain_fallback_witness:
  "BoostingType plainOptions = Plain
   \<and> (\<exists>st'. Fit_iteration sampleLearner plainOptions 1 False \<lparr>Left = 0, Right = 1000\<rparr>
               plainFolds 0 7 plainState = Inr st'
        \<and> (\<exists>weakModelStructure tasks rescaled m.
             Fit_rescaledModels sampleLearner plainOptions 1 \<lparr>Left = 0, Right = 1000\<rparr>
               plainFolds 0 7 (Cursor plainState) = Inr (weakModelStructure, tasks, rescaled)
           \<and> map TaskDst tasks = [FoldModel 0 0]
           \<and> Get rescaled 0 0 = Inr m
           \<and> m = 3 / 100
           \<and> Result st' = [m]))"
proof -
  have p: "BoostingType plainOptions = Plain"
    by (simp add: plainOptions_def)
  from Fit_plain_fallback [OF p plain_iteration]
  obtain weakModelStructure tasks rescaled m
    where "Fit_rescaledModels sampleLearner plainOptions 1 \<lparr>Left = 0, Right = 1000\<rparr>
             plainFolds 0 7 (Cursor plainState) = Inr (weakModelStructure, tasks, rescaled)"
      and "map TaskDst tasks = [FoldModel 0 0]"
      and "Get rescaled 0 0 = Inr m"
      and "m = Rescale sampleLearner (LearningRate plainOptions)
                 (EstimateLeaves sampleLearner weakModelStructure tasks 0)"
      and "Result (plainStateAt (3 / 100) [3 / 100]) = Result plainState @ [m]"
    by auto
  then show ?thesis
    using p plain_iteration
    by (auto simp: sampleLearner_def plainOptions_def sampleOptions_def plainState_def
        plainStateAt_def)
qed

section \<open>The check of the cursor slices\<close>

lemma cursor_sizes_Get:
  "Get cursor permutation foldId = Inr c \<Longrightarrow>
     permutation < length (cursor_sizes cursor)
     \<and> foldId < length (cursor_sizes cursor ! permutation)
     \<and> MappingSize c = cursor_sizes cursor ! permutation ! foldId"
  by (auto simp: Get_def cursor_sizes_def split: if_splits)

lemma Fit_foldCursorUpdate_checked:
  assumes "cursor_sizes cursor = fold_ends permutationFolds"
    and "permutation < length permutationFolds" "foldId < length (permutationFolds ! permutation)"
  shows "Fit_foldCursorUpdate Weak weakModelStructure permutationModels cursor permutation
           (permutationFolds ! permutation) foldId \<noteq> Inl CursorSliceMismatch"
proof
  assume a: "Fit_foldCursorUpdate Weak weakModelStructure permutationModels cursor permutation
      (permutationFolds ! permutation) foldId = Inl CursorSliceMismatch"
  then obtain c where g: "Get cursor permutation foldId = Inr c"
    and n: "GetObjectsSlice c \<noteq>
       \<lparr>Left = 0, Right = Right (QualityEvaluateSamples (permutationFolds ! permutation ! foldId))\<rparr>"
    by (auto simp: Fit_foldCursorUpdate_def Let_def andThen_Inl_iff Get_def index_def
        split: if_splits)
  from cursor_sizes_Get [OF g] assms
  have "MappingSize c = Right (QualityEvaluateSamples (permutationFolds ! permutation ! foldId))"
    by (simp add: fold_ends_def)
  with n show False by (simp add: GetObjectsSlice_def)
qed

lemma index_no_mismatch: "index xs i \<noteq> Inl CursorSliceMismatch"
  by (simp add: index_def)

lemma Get_no_mismatch: "Get storage permutation foldId \<noteq> Inl CursorSliceMismatch"
  by (simp add: Get_def)

lemma Fit_foldCursorUpdates_checked:
  assumes "cursor_sizes cursor = fold_ends permutationFolds"
  shows "Fit_foldCursorUpdates Weak weakModelStructure learnPermutations permutationFolds
           models cursor \<noteq> Inl CursorSliceMismatch"
proof
  assume "Fit_foldCursorUpdates Weak weakModelStructure learnPermutations permutationFolds
      models cursor = Inl CursorSliceMismatch"
  from collect_map_Inl [OF this [unfolded Fit_foldCursorUpdates_def]]
  obtain permutation permutationModels
    where p: "permutation < length permutationFolds"
      and c: "collect (map (Fit_foldCursorUpdate Weak weakModelStructure permutationModels cursor
                permutation (permutationFolds ! permutation))
             [0..<length (permutationFolds ! permutation)]) = Inl CursorSliceMismatch"
    by (auto simp: andThen_Inl_iff index_def split: if_splits)
  from collect_map_Inl [OF c]
  obtain foldId where f: "foldId < length (permutationFolds ! permutation)"
    and u: "Fit_foldCursorUpdate Weak weakModelStructure permutationModels cursor permutation
           (permutationFolds ! permutation) foldId = Inl CursorSliceMismatch"
    by auto
  from u show False by (simp add: Fit_foldCursorUpdate_checked [OF assms p f])
qed

lemma Fit_searchTargets_no_mismatch:
  "Fit_searchTargets Config cursor learnPermutationId taskFolds \<noteq> Inl CursorSliceMismatch"
  by (auto simp: Fit_searchTargets_def andThen_Inl_iff Get_no_mismatch dest!: collect_map_Inl)

lemma Fit_defaultModels_no_mismatch:
  "Fit_defaultModels defaultModel learnPermutations permutationFolds \<noteq> Inl CursorSliceMismatch"
  by (auto simp: Fit_defaultModels_def andThen_Inl_iff index_no_mismatch dest!: collect_map_Inl)

lemma Fit_estimationTasks_no_mismatch:
  "Fit_estimationTasks Config permutationCount allSlice permutationFolds cursor
     \<noteq> Inl CursorSliceMismatch"
  by (auto simp: Fit_estimationTasks_def Let_def andThen_Inl_iff index_no_mismatch
      Get_no_mismatch dest!: collect_map_Inl)

lemma Fit_rescaledModels_no_mismatch:
  "Fit_rescaledModels Weak Config permutationCount allSlice permutationFolds iteration rnd
     cursor \<noteq> Inl CursorSliceMismatch"
  by (auto simp: Fit_rescaledModels_def Let_def andThen_Inl_iff index_no_mismatch
      Fit_searchTargets_no_mismatch Fit_defaultModels_no_mismatch
      Fit_estimationTasks_no_mismatch)

lemma Fit_fallback_no_mismatch:
  "Fit_fallback Config estimationPermutation rescaled \<noteq> Inl CursorSliceMismatch"
  by (auto simp: Fit_fallback_def andThen_Inl_iff index_no_mismatch)

lemma Fit_testCursorUpdate_no_mismatch:
  "Fit_testCursorUpdate Weak weakModelStructure hasTestDataSet m testCursor
     \<noteq> Inl CursorSliceMismatch"
  by (auto simp: Fit_testCursorUpdate_def split: option.splits)

lemma Fit_iteration_checked:
  assumes "cursor_sizes (Cursor st) = fold_ends permutationFolds"
  shows "Fit_iteration Weak Config permutationCount hasTestDataSet allSlice permutationFolds
           iteration rnd st \<noteq> Inl CursorSliceMismatch"
  unfolding Fit_iteration_def Let_def
  by (auto simp: andThen_Inl_iff Fit_rescaledModels_no_mismatch Fit_fallback_no_mismatch
      Fit_testCursorUpdate_no_mismatch Fit_foldCursorUpdates_checked [OF assms])

lemma cursor_sizes_Put:
  assumes "cursor_sizes cursor = sizes"
    and "permutation < length sizes \<Longrightarrow> foldId < length (sizes ! permutation)
           \<Longrightarrow> MappingSize v = sizes ! permutation ! foldId"
  shows "cursor_sizes (Put permutation foldId v cursor) = sizes"
proof (cases "permutation < length sizes \<and> foldId < length (sizes ! permutation)")
  case True
  with assms have p: "permutation < length (FoldData cursor)"
    and v: "MappingSize v = sizes ! permutation ! foldId"
    by (auto simp: cursor_sizes_def)
  have "cursor_sizes (Put permutation foldId v cursor)
      = (cursor_sizes cursor)[permutation :=
          (cursor_sizes cursor ! permutation)[foldId := MappingSize v]]"
    using p by (simp add: cursor_sizes_def Put_def map_update)
  also have "\<dots> = sizes"
    using assms(1) v by simp
  finally show ?thesis .
next
  case False
  have "(FoldData cursor)[permutation := (FoldData cursor ! permutation)[foldId := v]]
      = FoldData cursor"
  proof (cases "permutation < length (FoldData cursor)")
    case True
    with False assms(1) have "length (FoldData cursor ! permutation) \<le> foldId"
      by (auto simp: cursor_sizes_def)
    then have "(FoldData cursor ! permutation)[foldId := v] = FoldData cursor ! permutation"
      by (rule list_update_beyond)
    then show ?thesis by simp
  next
    case False
    then show ?thesis by (simp add: list_update_beyond)
  qed
  with assms(1) show ?thesis by (simp add: cursor_sizes_def Put_def)
qed

lemma cursor_sizes_store_row:
  assumes "\<forall>foldId\<in>set foldIds. permutation < length sizes \<longrightarrow> foldId < length (sizes ! permutation)
           \<longrightarrow> MappingSize (row ! foldId) = sizes ! permutation ! foldId"
  shows "cursor_sizes cursor = sizes \<Longrightarrow>
     cursor_sizes (fold (\<lambda>foldId. Put permutation foldId (row ! foldId)) foldIds cursor) = sizes"
  using assms
proof (induction foldIds arbitrary: cursor)
  case Nil
  then show ?case by simp
next
  case (Cons foldId foldIds)
  from Cons.prems have "cursor_sizes (Put permutation foldId (row ! foldId) cursor) = sizes"
    by (intro cursor_sizes_Put) simp_all
  with Cons show ?case by simp
qed

lemma cursor_sizes_store:
  assumes "\<forall>permutation\<in>set permutations. \<forall>foldId<length (rows ! permutation).
           permutation < length sizes \<longrightarrow> foldId < length (sizes ! permutation)
           \<longrightarrow> MappingSize (rows ! permutation ! foldId) = sizes ! permutation ! foldId"
  shows "cursor_sizes cursor = sizes \<Longrightarrow>
     cursor_sizes (fold (\<lambda>permutation.
         fold (\<lambda>foldId. Put permutation foldId (rows ! permutation ! foldId))
           [0..<length (rows ! permutation)]) permutations cursor) = sizes"
  using assms
proof (induction permutations arbitrary: cursor)
  case Nil
  then show ?case by simp
next
  case (Cons permutation permutations)
  from Cons.prems
  have "cursor_sizes (fold (\<lambda>foldId. Put permutation foldId (rows ! permutation ! foldId))
      [0..<length (rows ! permutation)] cursor) = sizes"
    by (intro cursor_sizes_store_row) simp_all
  with Cons show ?case by simp
qed

lemma Fit_foldCursorUpdate_size:
  "Fit_foldCursorUpdate Weak weakModelStructure permutationModels cursor permutation folds foldId
     = Inr c \<Longrightarrow>
   MappingSize c = cursor_sizes cursor ! permutation ! foldId"
  by (auto simp: Fit_foldCursorUpdate_def Let_def andThen_Inr_iff
      dest!: cursor_sizes_Get split: if_splits)

lemma Fit_foldCursorUpdates_sizes:
  assumes "Fit_foldCursorUpdates Weak weakModelStructure learnPermutations permutationFolds
             models cursor = Inr rows"
    and "permutation < length rows" "foldId < length (rows ! permutation)"
  shows "MappingSize (rows ! permutation ! foldId) = cursor_sizes cursor ! permutation ! foldId"
proof -
  from collect_map_Inr [OF assms(1) [unfolded Fit_foldCursorUpdates_def]] assms(2)
  obtain permutationModels folds
    where "collect (map (Fit_foldCursorUpdate Weak weakModelStructure permutationModels cursor
              permutation folds) [0..<length folds]) = Inr (rows ! permutation)"
    by (auto simp: andThen_Inr_iff)
  from collect_map_Inr [OF this] assms(3)
  have "Fit_foldCursorUpdate Weak weakModelStructure permutationModels cursor permutation folds
      foldId = Inr (rows ! permutation ! foldId)"
    by auto
  then show ?thesis by (rule Fit_foldCursorUpdate_size)
qed

lemma Fit_iteration_sizes:
  assumes "Fit_iteration Weak Config permutationCount hasTestDataSet allSlice permutationFolds
             iteration rnd st = Inr st'"
  shows "cursor_sizes (Cursor st') = cursor_sizes (Cursor st)"
proof -
  from assms obtain rows estimationCursor
    where r: "Fit_foldCursorUpdates Weak (fst rows) (Fit_learnPermutationCount permutationCount)
               permutationFolds (snd (snd rows)) (Cursor st) = Inr (fst (snd rows))"
      and c: "Cursor st' = Fit_storeCursors (fst (snd rows))
               ((Cursor st)\<lparr>Estimation := estimationCursor\<rparr>)"
    unfolding Fit_iteration_def Let_def
    by (fastforce simp: andThen_Inr_iff)
  have "cursor_sizes ((Cursor st)\<lparr>Estimation := estimationCursor\<rparr>) = cursor_sizes (Cursor st)"
    by (simp add: cursor_sizes_def)
  then show ?thesis
    unfolding c Fit_storeCursors_def
    by (rule cursor_sizes_store [rotated]) (simp add: Fit_foldCursorUpdates_sizes [OF r])
qed

lemma Fit_bestTestCursor_no_mismatch:
  "Fit_bestTestCursor isBest st \<noteq> Inl CursorSliceMismatch"
  by (auto simp: Fit_bestTestCursor_def split: option.splits)

lemma Fit_bestTestCursor_Cursor:
  "Fit_bestTestCursor isBest st = Inr st' \<Longrightarrow> Cursor st' = Cursor st \<and> Result st' = Result st"
  by (auto simp: Fit_bestTestCursor_def split: option.splits if_splits)

lemma Fit_loop_checked:
  "cursor_sizes (Cursor st) = fold_ends permutationFolds \<Longrightarrow>
     fst (Fit_loop Weak Config permutationCount hasTestDataSet allSlice permutationFolds
            decisions rnd n tracker st) \<noteq> Inl CursorSliceMismatch"
proof (induction n arbitrary: tracker st)
  case 0
  show ?case by simp
next
  case (Suc n)
  let ?saved = "MaybeSaveSnapshot decisions (snapshotSaver st) tracker"
  let ?step = "andThen
      (Fit_iteration Weak Config permutationCount hasTestDataSet allSlice permutationFolds
         (Iteration ?saved) (rnd (Iteration ?saved)) st)
      (Fit_bestTestCursor (BestTestIteration decisions (Iteration ?saved)))"
  show ?case
  proof (cases ?step)
    case (Inl e)
    then have "e \<noteq> CursorSliceMismatch"
      by (auto simp: andThen_Inl_iff Fit_iteration_checked [OF Suc.prems]
          Fit_bestTestCursor_no_mismatch)
    with Inl show ?thesis by (simp add: Let_def)
  next
    case (Inr st')
    then obtain st1 where
      "Fit_iteration Weak Config permutationCount hasTestDataSet allSlice permutationFolds
         (Iteration ?saved) (rnd (Iteration ?saved)) st = Inr st1"
      and "Fit_bestTestCursor (BestTestIteration decisions (Iteration ?saved)) st1 = Inr st'"
      by (auto simp: andThen_Inr_iff)
    then have "cursor_sizes (Cursor st') = cursor_sizes (Cursor st)"
      by (auto dest!: Fit_iteration_sizes Fit_bestTestCursor_Cursor)
    with Suc.prems have "cursor_sizes (Cursor st') = fold_ends permutationFolds" by simp
    from Suc.IH [OF this] Inr show ?thesis by (simp add: Let_def)
  qed
qed

lemma CreateState_permutations_sizes:
  "CreateState_permutations Config devCount objectCount dataSets baseline i n
     = Some (Inr permutations) \<Longrightarrow>
   map (map MappingSize) (map snd permutations) = fold_ends (map fst permutations)"
proof (induction n arbitrary: i permutations)
  case 0
  then show ?case by (auto simp: fold_ends_def)
next
  case (Suc n)
  from Suc.prems obtain folds rest
    where r: "CreateState_permutations Config devCount objectCount dataSets baseline (Suc i) n
               = Some (Inr rest)"
      and p: "permutations = (folds, CreateState_foldCursors baseline i folds) # rest"
    by (auto split: sum.splits option.splits)
  from Suc.IH [OF r] show ?case
    unfolding p by (simp add: fold_ends_def CreateState_foldCursors_def comp_def)
qed

lemma CreateState_sizes:
  "CreateState Config devCount BuildDataSet DataProvider TestDataProvider baseline
     = Some (Inr state) \<Longrightarrow>
   cursor_sizes (Cursor state) = fold_ends (PermutationFolds state)"
  unfolding CreateState_def Let_def cursor_sizes_def
  by (auto split: sum.splits option.splits if_splits dest!: CreateState_permutations_sizes)

text \<open>
  C5. Every fold cursor that \<open>CreateState\<close> makes has the mapping size of the evaluate end
  of its fold, and an iteration of \<open>Fit\<close> changes the contents of the cursors only. So
  when \<open>Fit\<close> runs on the state that \<open>CreateState\<close> has returned, with any weak learner,
  any random numbers and any external decisions, the check of the cursor slice before the
  update of a fold cursor passes in every iteration: \<open>Fit\<close> never ends with the error of
  that check.
\<close>

theorem Fit_cursor_check_never_fails:
  assumes "CreateState Config devCount BuildDataSet DataProvider TestDataProvider baseline
             = Some (Inr state)"
  shows "fst (Fit Weak Config (length (SamplesGrouping (DataSets state))) hasTestDataSet allSlice
               (PermutationFolds state) decisions rnd tracker state)
           \<noteq> Inl CursorSliceMismatch"
proof -
  from Fit_loop_checked [OF CreateState_sizes [OF assms]]
  have "fst (Fit_loop Weak Config (length (SamplesGrouping (DataSets state))) hasTestDataSet
      allSlice (PermutationFolds state) decisions rnd
      (IterationCount tracker - Iteration tracker) tracker state) \<noteq> Inl CursorSliceMismatch" .
  then show ?thesis
    by (auto simp: Fit_def split: prod.splits sum.splits)
qed

lemma sampleOptions_fields:
  "BoostingType sampleOptions = OrderedBoosting" "PermutationBlockSize sampleOptions = 32"
  "PermutationCount sampleOptions = 4" "MinFoldSize sampleOptions = 100"
  "FoldLenMultiplier sampleOptions = 2" "LearningRate sampleOptions = 3 / 100"
  by (simp_all add: sampleOptions_def)

lemma CreateFolds_example_Suc:
  "CreateFolds sampleOptions (Suc 0) 1000 2 (equalGroups 10 100) =
     Some (Inr
      [\<lparr>EstimateSamples = \<lparr>Left = 0, Right = 30\<rparr>,
         QualityEvaluateSamples = \<lparr>Left = 30, Right = 70\<rparr>\<rparr>,
       \<lparr>EstimateSamples = \<lparr>Left = 0, Right = 70\<rparr>,
         QualityEvaluateSamples = \<lparr>Left = 70, Right = 150\<rparr>\<rparr>,
       \<lparr>EstimateSamples = \<lparr>Left = 0, Right = 150\<rparr>,
         QualityEvaluateSamples = \<lparr>Left = 150, Right = 310\<rparr>\<rparr>,
       \<lparr>EstimateSamples = \<lparr>Left = 0, Right = 310\<rparr>,
         QualityEvaluateSamples = \<lparr>Left = 310, Right = 630\<rparr>\<rparr>,
       \<lparr>EstimateSamples = \<lparr>Left = 0, Right = 630\<rparr>,
         QualityEvaluateSamples = \<lparr>Left = 630, Right = 1000\<rparr>\<rparr>])"
  using CreateFolds_example by simp

lemma CreateState_permutations_example:
  "\<exists>permutations.
     CreateState_permutations sampleOptions (Suc 0) 1000
       \<lparr>SamplesGrouping = replicate 4 (equalGroups 10 100)\<rparr> (\<lambda>view n. 0::rat) 0 3
       = Some (Inr permutations)
     \<and> length permutations = 3"
proof -
  have i: "index (replicate 4 (equalGroups 10 100)) k = Inr (equalGroups 10 100)" if "k < 4" for k
    using that by (simp add: index_def)
  have "3 = Suc (Suc (Suc 0))" by simp
  then show ?thesis
    by (simp only: CreateState_permutations.simps TFeatureParallelDataSetsHolder.simps)
      (simp add: i sampleOptions_fields CreateFolds_example_Suc)
qed

lemma CreateState_example:
  "\<exists>state :: (rat, rat) TBoostingState.
     CreateState sampleOptions 1 sampleBuilder (Some sampleProvider) None (\<lambda>view n. 0)
       = Some (Inr state)
     \<and> length (PermutationFolds state) = 3"
proof -
  from CreateState_permutations_example obtain permutations
    where p: "CreateState_permutations sampleOptions (Suc 0) 1000
       \<lparr>SamplesGrouping = replicate 4 (equalGroups 10 100)\<rparr> (\<lambda>view n. 0::rat) 0 3
       = Some (Inr permutations)" and l: "length permutations = 3"
    by blast
  have e: "Fit_estimationPermutation 4 = 3" "Fit_learnPermutationCount 4 = 3"
    by (simp_all add: Fit_estimationPermutation_def Fit_learnPermutationCount_def ui32_def)
  have d: "CreateDataSet sampleOptions (Some sampleProvider)
      = Inr \<lparr>RequestedBlockSize = 1, RequestedPermutationCount = 4\<rparr>"
    by (simp add: CreateDataSet_def sampleProvider_def sampleOptions_fields
        GetPermutationBlockSize_def)
  show ?thesis
    unfolding CreateState_def d
    by (simp add: Let_def sampleBuilder_def sampleProvider_def e p l)
qed

theorem Fit_cursor_check_never_fails_witness:
  "\<exists>state.
     CreateState sampleOptions 1 sampleBuilder (Some sampleProvider) None (\<lambda>view n. 0)
       = Some (Inr state)
     \<and> length (PermutationFolds state) = 3
     \<and> fst (Fit sampleLearner sampleOptions (length (SamplesGrouping (DataSets state))) False
              \<lparr>Left = 0, Right = 1000\<rparr> (PermutationFolds state) sampleDecisions
              (\<lambda>iteration. 7) sampleTracker state)
         \<noteq> Inl CursorSliceMismatch"
proof -
  from CreateState_example obtain state :: "(rat, rat) TBoostingState"
    where s: "CreateState sampleOptions 1 sampleBuilder (Some sampleProvider) None (\<lambda>view n. 0)
                = Some (Inr state)"
      and l: "length (PermutationFolds state) = 3"
    by blast
  from Fit_cursor_check_never_fails [OF s] s l show ?thesis by blast
qed

section \<open>Resuming from a snapshot\<close>

lemma Fit_iteration_appends:
  "Fit_iteration Weak Config permutationCount hasTestDataSet allSlice permutationFolds
     iteration rnd st = Inr st' \<Longrightarrow> \<exists>m. Result st' = Result st @ [m]"
  unfolding Fit_iteration_def Let_def
  by (fastforce simp: andThen_Inr_iff)

lemma Fit_step_appends:
  "andThen (Fit_iteration Weak Config permutationCount hasTestDataSet allSlice permutationFolds
              iteration rnd st) (Fit_bestTestCursor isBest) = Inr st'
   \<Longrightarrow> \<exists>m. Result st' = Result st @ [m]"
  by (auto simp: andThen_Inr_iff dest!: Fit_iteration_appends Fit_bestTestCursor_Cursor)

lemma Fit_loop_extends:
  "Fit_loop Weak Config permutationCount hasTestDataSet allSlice permutationFolds decisions rnd
     n tracker st = (Inr st', tracker') \<Longrightarrow> \<exists>ms. Result st' = Result st @ ms"
proof (induction n arbitrary: tracker st)
  case 0
  then show ?case by simp
next
  case (Suc n)
  let ?saved = "MaybeSaveSnapshot decisions (snapshotSaver st) tracker"
  let ?step = "andThen
      (Fit_iteration Weak Config permutationCount hasTestDataSet allSlice permutationFolds
         (Iteration ?saved) (rnd (Iteration ?saved)) st)
      (Fit_bestTestCursor (BestTestIteration decisions (Iteration ?saved)))"
  show ?case
  proof (cases "ShouldStop decisions tracker \<or> InterruptRaised decisions (Iteration tracker)")
    case True
    with Suc.prems show ?thesis by (auto split: if_splits)
  next
    case False
    show ?thesis
    proof (cases ?step)
      case (Inl e)
      with False Suc.prems show ?thesis by (simp add: Let_def)
    next
      case (Inr st1)
      with False Suc.prems
      have "Fit_loop Weak Config permutationCount hasTestDataSet allSlice permutationFolds
          decisions rnd n (?saved\<lparr>Iteration := Suc (Iteration ?saved)\<rparr>) st1 = (Inr st', tracker')"
        by (simp add: Let_def)
      from Suc.IH [OF this] obtain ms where "Result st' = Result st1 @ ms" by blast
      moreover from Fit_step_appends [OF Inr] obtain m where "Result st1 = Result st @ [m]"
        by blast
      ultimately show ?thesis by simp
    qed
  qed
qed

lemma Fit_extends:
  "Fit Weak Config permutationCount hasTestDataSet allSlice permutationFolds decisions rnd
     tracker st = (Inr st', tracker') \<Longrightarrow> \<exists>ms. Result st' = Result st @ ms"
  by (auto simp: Fit_def split: if_splits prod.splits sum.splits dest: Fit_loop_extends)

lemma uninterrupted_simps:
  "ShouldStop (uninterrupted decisions) tracker = ShouldStop decisions tracker"
  "MaybeSaveSnapshot (uninterrupted decisions) snapshot tracker
     = MaybeSaveSnapshot decisions snapshot tracker"
  "BestTestIteration (uninterrupted decisions) = BestTestIteration decisions"
  "InterruptRaised (uninterrupted decisions) iteration = False"
  by (simp_all add: uninterrupted_def ShouldStop_def MaybeSaveSnapshot_def)

lemma MaybeSaveSnapshot_Iteration:
  "Iteration (MaybeSaveSnapshot decisions snapshot tracker) = Iteration tracker"
  by (simp add: MaybeSaveSnapshot_def)

lemma MaybeSaveSnapshot_Snapshot:
  "Snapshot (MaybeSaveSnapshot decisions snapshot tracker) = Some (k, s) \<Longrightarrow>
     Snapshot tracker = Some (k, s) \<or> (k = Iteration tracker \<and> s = snapshot)"
  by (auto simp: MaybeSaveSnapshot_def split: if_splits)

text \<open>Where the snapshot of the tracker comes from, after the loop has ended in any way.\<close>

lemma Fit_loop_snapshot:
  "Fit_loop Weak Config permutationCount hasTestDataSet allSlice permutationFolds decisions rnd
     n tracker st = (outcome, tracker')
   \<Longrightarrow> Snapshot tracker' = Some (k, snapshot)
   \<Longrightarrow> Snapshot tracker = Some (k, snapshot)
     \<or> (\<exists>observed trackerK. Iteration tracker \<le> k
          \<and> Fit_loop Weak Config permutationCount hasTestDataSet allSlice permutationFolds
               (uninterrupted decisions) rnd (k - Iteration tracker) tracker st
              = (Inr observed, trackerK)
          \<and> snapshot = snapshotSaver observed
          \<and> length (Result observed) = length (Result st) + (k - Iteration tracker))"
proof (induction n arbitrary: tracker st)
  case 0
  then show ?case by simp
next
  case (Suc n)
  let ?saved = "MaybeSaveSnapshot decisions (snapshotSaver st) tracker"
  let ?step = "andThen
      (Fit_iteration Weak Config permutationCount hasTestDataSet allSlice permutationFolds
         (Iteration ?saved) (rnd (Iteration ?saved)) st)
      (Fit_bestTestCursor (BestTestIteration decisions (Iteration ?saved)))"
  have here: "Snapshot tracker = Some (k, snapshot)
     \<or> (\<exists>observed trackerK. Iteration tracker \<le> k
          \<and> Fit_loop Weak Config permutationCount hasTestDataSet allSlice permutationFolds
               (uninterrupted decisions) rnd (k - Iteration tracker) tracker st
              = (Inr observed, trackerK)
          \<and> snapshot = snapshotSaver observed
          \<and> length (Result observed) = length (Result st) + (k - Iteration tracker))"
    if "Snapshot ?saved = Some (k, snapshot)"
    using MaybeSaveSnapshot_Snapshot [OF that] by auto
  show ?case
  proof (cases "ShouldStop decisions tracker \<or> InterruptRaised decisions (Iteration tracker)")
    case True
    with Suc.prems show ?thesis by (auto split: if_splits)
  next
    case False
    show ?thesis
    proof (cases ?step)
      case (Inl e)
      with False Suc.prems have "Snapshot ?saved = Some (k, snapshot)"
        by (auto simp: Let_def)
      then show ?thesis by (rule here)
    next
      case (Inr st1)
      let ?next = "?saved\<lparr>Iteration := Suc (Iteration ?saved)\<rparr>"
      from Inr False Suc.prems
      have "Fit_loop Weak Config permutationCount hasTestDataSet allSlice permutationFolds
          decisions rnd n ?next st1 = (outcome, tracker')"
        by (simp add: Let_def)
      from Suc.IH [OF this Suc.prems(2)]
      show ?thesis
      proof
        assume "Snapshot ?next = Some (k, snapshot)"
        then have "Snapshot ?saved = Some (k, snapshot)" by simp
        then show ?thesis by (rule here)
      next
        assume "\<exists>observed trackerK. Iteration ?next \<le> k
          \<and> Fit_loop Weak Config permutationCount hasTestDataSet allSlice permutationFolds
               (uninterrupted decisions) rnd (k - Iteration ?next) ?next st1
              = (Inr observed, trackerK)
          \<and> snapshot = snapshotSaver observed
          \<and> length (Result observed) = length (Result st1) + (k - Iteration ?next)"
        then obtain observed trackerK
          where k: "Suc (Iteration tracker) \<le> k"
            and l: "Fit_loop Weak Config permutationCount hasTestDataSet allSlice permutationFolds
               (uninterrupted decisions) rnd (k - Suc (Iteration tracker)) ?next st1
              = (Inr observed, trackerK)"
            and s: "snapshot = snapshotSaver observed"
            and r: "length (Result observed) = length (Result st1) + (k - Suc (Iteration tracker))"
          by (auto simp: MaybeSaveSnapshot_Iteration)
        from k have f: "k - Iteration tracker = Suc (k - Suc (Iteration tracker))" by simp
        have "Fit_loop Weak Config permutationCount hasTestDataSet allSlice permutationFolds
               (uninterrupted decisions) rnd (k - Iteration tracker) tracker st
              = (Inr observed, trackerK)"
          unfolding f using False Inr l
          by (simp add: uninterrupted_simps Let_def)
        moreover from Fit_step_appends [OF Inr] r k
        have "length (Result observed) = length (Result st) + (k - Iteration tracker)"
          by auto
        ultimately show ?thesis using k s by auto
      qed
    qed
  qed
qed

lemma Fit_loop_return:
  "Fit_loop Weak Config permutationCount hasTestDataSet allSlice permutationFolds decisions rnd
     n tracker st = (Inr st', tracker')
   \<Longrightarrow> Iteration tracker \<le> Iteration tracker'
     \<and> (\<exists>trackerK. Fit_loop Weak Config permutationCount hasTestDataSet allSlice
            permutationFolds (uninterrupted decisions) rnd
            (Iteration tracker' - Iteration tracker) tracker st = (Inr st', trackerK))
     \<and> length (Result st') = length (Result st) + (Iteration tracker' - Iteration tracker)"
proof (induction n arbitrary: tracker st)
  case 0
  then show ?case by simp
next
  case (Suc n)
  let ?saved = "MaybeSaveSnapshot decisions (snapshotSaver st) tracker"
  let ?step = "andThen
      (Fit_iteration Weak Config permutationCount hasTestDataSet allSlice permutationFolds
         (Iteration ?saved) (rnd (Iteration ?saved)) st)
      (Fit_bestTestCursor (BestTestIteration decisions (Iteration ?saved)))"
  show ?case
  proof (cases "ShouldStop decisions tracker \<or> InterruptRaised decisions (Iteration tracker)")
    case True
    with Suc.prems show ?thesis by (auto split: if_splits)
  next
    case False
    show ?thesis
    proof (cases ?step)
      case (Inl e)
      with False Suc.prems show ?thesis by (simp add: Let_def)
    next
      case (Inr st1)
      let ?next = "?saved\<lparr>Iteration := Suc (Iteration ?saved)\<rparr>"
      from Inr False Suc.prems
      have "Fit_loop Weak Config permutationCount hasTestDataSet allSlice permutationFolds
          decisions rnd n ?next st1 = (Inr st', tracker')"
        by (simp add: Let_def)
      from Suc.IH [OF this] obtain trackerK
        where k: "Suc (Iteration tracker) \<le> Iteration tracker'"
          and l: "Fit_loop Weak Config permutationCount hasTestDataSet allSlice permutationFolds
               (uninterrupted decisions) rnd (Iteration tracker' - Suc (Iteration tracker))
               ?next st1 = (Inr st', trackerK)"
          and r: "length (Result st')
               = length (Result st1) + (Iteration tracker' - Suc (Iteration tracker))"
        by (auto simp: MaybeSaveSnapshot_Iteration)
      from k have f: "Iteration tracker' - Iteration tracker
          = Suc (Iteration tracker' - Suc (Iteration tracker))" by simp
      have "Fit_loop Weak Config permutationCount hasTestDataSet allSlice permutationFolds
               (uninterrupted decisions) rnd (Iteration tracker' - Iteration tracker) tracker st
              = (Inr st', trackerK)"
        unfolding f using False Inr l
        by (simp add: uninterrupted_simps Let_def)
      moreover from Fit_step_appends [OF Inr] r k
      have "length (Result st') = length (Result st) + (Iteration tracker' - Iteration tracker)"
        by auto
      ultimately show ?thesis using k by auto
    qed
  qed
qed

lemma Fit_snapshot:
  assumes first: "Fit Weak Config permutationCount hasTestDataSet allSlice permutationFolds
                    decisions rnd tracker st = (outcome, tracker')"
    and fresh: "Snapshot tracker = None" "Iteration tracker = 0"
    and saved: "Snapshot tracker' = Some (k, snapshot)"
  shows "\<exists>observed trackerK.
       Fit_loop Weak Config permutationCount hasTestDataSet allSlice permutationFolds
         (uninterrupted decisions) rnd k tracker st = (Inr observed, trackerK)
     \<and> snapshot = snapshotSaver observed
     \<and> length (Result observed) = length (Result st) + k"
proof -
  let ?n = "IterationCount tracker - Iteration tracker"
  obtain o1 t1
    where loop: "Fit_loop Weak Config permutationCount hasTestDataSet allSlice permutationFolds
        decisions rnd ?n tracker st = (o1, t1)"
    by (cases "Fit_loop Weak Config permutationCount hasTestDataSet allSlice permutationFolds
        decisions rnd ?n tracker st") blast
  from first fresh saved have pc: "permutationCount \<ge> 1"
    by (auto simp: Fit_def split: if_splits)
  show ?thesis
  proof (cases "Snapshot t1 = Some (k, snapshot)")
    case True
    from Fit_loop_snapshot [OF loop True] fresh show ?thesis by simp
  next
    case False
    with first saved loop pc obtain st1
      where o1: "o1 = Inr st1"
        and t: "Snapshot (MaybeSaveSnapshot decisions (snapshotSaver st1) t1) = Some (k, snapshot)"
      by (auto simp: Fit_def split: sum.splits)
    from MaybeSaveSnapshot_Snapshot [OF t] False
    have "k = Iteration t1" "snapshot = snapshotSaver st1" by blast+
    with Fit_loop_return [OF loop [unfolded o1]] fresh show ?thesis by auto
  qed
qed

text \<open>
  C3. Let a first call of \<open>Fit\<close> start at iteration 0 with an empty result model and no
  snapshot, and let it end in any way (by returning, by an interruption, by an error)
  with a snapshot on the tracker that was taken at iteration \<open>k\<close>. Then the same run
  without interruption, observed after \<open>k\<close> iterations, exists and has exactly \<open>k\<close> weak
  models; and whenever a later call of \<open>Fit\<close> (with any weak learner, random numbers and
  decisions) starts from a state restored from that snapshot and returns, the first \<open>k\<close>
  weak models of its result are those \<open>k\<close> models.
\<close>

theorem Fit_resume_keeps_models:
  assumes first: "Fit Weak Config permutationCount hasTestDataSet allSlice permutationFolds
                    decisions rnd tracker st = (outcome, tracker')"
    and fresh: "Snapshot tracker = None" "Iteration tracker = 0" "Result st = []"
    and saved: "Snapshot tracker' = Some (k, snapshot)"
    and restart: "Snapshot restartTracker = Some (k, snapshot)"
    and restore: "MaybeRestoreFromSnapshot (snapshotLoader hasTestDataProvider) restartTracker
                    created = (restoredTracker, restored)"
    and continued: "Fit Weak2 Config2 permutationCount2 hasTestDataSet2 allSlice2
                      permutationFolds2 decisions2 rnd2 restoredTracker restored
                    = (Inr final, finalTracker)"
  shows "\<exists>observed trackerK.
       Fit_loop Weak Config permutationCount hasTestDataSet allSlice permutationFolds
         (uninterrupted decisions) rnd k tracker st = (Inr observed, trackerK)
     \<and> length (Result observed) = k
     \<and> take k (Result final) = Result observed"
proof -
  from Fit_snapshot [OF first fresh(1,2) saved] fresh(3)
  obtain observed trackerK
    where o: "Fit_loop Weak Config permutationCount hasTestDataSet allSlice permutationFolds
         (uninterrupted decisions) rnd k tracker st = (Inr observed, trackerK)"
      and s: "snapshot = snapshotSaver observed"
      and l: "length (Result observed) = k"
    by auto
  from restore restart have "restored = snapshotLoader hasTestDataProvider snapshot created"
    by (simp add: MaybeRestoreFromSnapshot_def)
  with s have "Result restored = Result observed"
    by (simp add: snapshotLoader_def snapshotSaver_def MakeProgress_def)
  with Fit_extends [OF continued] l have "take k (Result final) = Result observed"
    by auto
  with o l show ?thesis by blast
qed

lemma plain_step_at:
  "andThen (Fit_iteration sampleLearner plainOptions (Suc 0) False \<lparr>Left = 0, Right = 1000\<rparr>
              plainFolds iteration r (plainStateAt a ms)) (Fit_bestTestCursor False)
     = Inr (plainStateAt (a + 3 / 100) (ms @ [3 / 100]))"
  by (simp add: plain_iteration_at Fit_bestTestCursor_def)

lemma Fit_loop_pos:
  "0 < n \<Longrightarrow>
   Fit_loop Weak Config permutationCount hasTestDataSet allSlice permutationFolds decisions rnd
     n tracker st =
     (if ShouldStop decisions tracker then (Inr st, tracker)
      else if InterruptRaised decisions (Iteration tracker) then (Inl Interrupted, tracker)
      else
        (let saved = MaybeSaveSnapshot decisions (snapshotSaver st) tracker;
             iteration = Iteration saved
         in case andThen
                   (Fit_iteration Weak Config permutationCount hasTestDataSet allSlice
                      permutationFolds iteration (rnd iteration) st)
                   (Fit_bestTestCursor (BestTestIteration decisions iteration)) of
              Inl e \<Rightarrow> (Inl e, saved)
            | Inr st' \<Rightarrow>
                Fit_loop Weak Config permutationCount hasTestDataSet allSlice permutationFolds
                  decisions rnd (n - 1) (saved\<lparr>Iteration := Suc iteration\<rparr>) st'))"
  using Fit_loop.simps(2) [of Weak Config permutationCount hasTestDataSet allSlice
      permutationFolds decisions rnd "n - 1" tracker st]
  by simp

lemma sampleDecisions_fields:
  "OverfittingDetected sampleDecisions i = False" "SnapshotDue sampleDecisions i = True"
  "InterruptRaised sampleDecisions i = (i = 2)" "BestTestIteration sampleDecisions i = False"
  "OverfittingDetected (uninterrupted sampleDecisions) i = False"
  "SnapshotDue (uninterrupted sampleDecisions) i = True"
  by (simp_all add: sampleDecisions_def uninterrupted_def)

lemma first_run:
  "Fit sampleLearner plainOptions 1 False \<lparr>Left = 0, Right = 1000\<rparr> plainFolds
     sampleDecisions (\<lambda>iteration. 7) sampleTracker plainState
   = (Inl Interrupted,
      \<lparr>Iteration = 2, IterationCount = 5,
        Snapshot = Some (1, snapshotSaver (plainStateAt (3 / 100) [3 / 100]))\<rparr>)"
  by (simp add: Fit_def plainState_eq sampleTracker_def Fit_loop_pos ShouldStop_def
      sampleDecisions_fields MaybeSaveSnapshot_def plain_step_at Let_def)

lemma resumed_run:
  "Fit sampleLearner plainOptions 1 False \<lparr>Left = 0, Right = 1000\<rparr> plainFolds
     (uninterrupted sampleDecisions) (\<lambda>iteration. 7)
     \<lparr>Iteration = 1, IterationCount = 5,
       Snapshot = Some (1, snapshotSaver (plainStateAt (3 / 100) [3 / 100]))\<rparr>
     (plainStateAt (3 / 100) [3 / 100])
   = (Inr (plainStateAt (15 / 100) [3 / 100, 3 / 100, 3 / 100, 3 / 100, 3 / 100]),
      \<lparr>Iteration = 5, IterationCount = 5,
        Snapshot = Some (5, snapshotSaver
          (plainStateAt (15 / 100) [3 / 100, 3 / 100, 3 / 100, 3 / 100, 3 / 100]))\<rparr>)"
  by (simp add: Fit_def Fit_loop_pos ShouldStop_def uninterrupted_simps
      sampleDecisions_fields MaybeSaveSnapshot_def plain_step_at Let_def)

lemma restored_state:
  "MaybeRestoreFromSnapshot (snapshotLoader False)
     (sampleTracker\<lparr>Snapshot := Some (1, snapshotSaver (plainStateAt (3 / 100) [3 / 100]))\<rparr>)
     plainState
   = (\<lparr>Iteration = 1, IterationCount = 5,
        Snapshot = Some (1, snapshotSaver (plainStateAt (3 / 100) [3 / 100]))\<rparr>,
      plainStateAt (3 / 100) [3 / 100])"
  by (simp add: MaybeRestoreFromSnapshot_def snapshotLoader_def snapshotSaver_def
      MakeProgress_def sampleTracker_def plainState_def plainStateAt_def)

theorem Fit_resume_keeps_models_witness:
  "\<exists>outcome tracker' snapshot restoredTracker restored final finalTracker.
     Fit sampleLearner plainOptions 1 False \<lparr>Left = 0, Right = 1000\<rparr> plainFolds
       sampleDecisions (\<lambda>iteration. 7) sampleTracker plainState = (outcome, tracker')
   \<and> outcome = Inl Interrupted
   \<and> Snapshot sampleTracker = None \<and> Iteration sampleTracker = 0 \<and> Result plainState = []
   \<and> Snapshot tracker' = Some (1, snapshot)
   \<and> MaybeRestoreFromSnapshot (snapshotLoader False)
        (sampleTracker\<lparr>Snapshot := Some (1, snapshot)\<rparr>) plainState
        = (restoredTracker, restored)
   \<and> Fit sampleLearner plainOptions 1 False \<lparr>Left = 0, Right = 1000\<rparr> plainFolds
        (uninterrupted sampleDecisions) (\<lambda>iteration. 7) restoredTracker restored
        = (Inr final, finalTracker)
   \<and> length (Result final) = 5
   \<and> (\<exists>observed trackerK.
         Fit_loop sampleLearner plainOptions 1 False \<lparr>Left = 0, Right = 1000\<rparr> plainFolds
           (uninterrupted sampleDecisions) (\<lambda>iteration. 7) 1 sampleTracker plainState
           = (Inr observed, trackerK)
       \<and> length (Result observed) = 1
       \<and> take 1 (Result final) = Result observed)"
proof -
  let ?snapshot = "snapshotSaver (plainStateAt (3 / 100) [3 / 100])"
  let ?tracker' = "\<lparr>Iteration = 2, IterationCount = 5, Snapshot = Some (1, ?snapshot)\<rparr>"
  let ?final = "plainStateAt (15 / 100) [3 / 100, 3 / 100, 3 / 100, 3 / 100, 3 / 100]"
  have fresh: "Snapshot sampleTracker = None" "Iteration sampleTracker = 0"
    "Result plainState = []"
    by (simp_all add: sampleTracker_def plainState_def)
  have saved: "Snapshot ?tracker' = Some (1, ?snapshot)" by simp
  have restart: "Snapshot (sampleTracker\<lparr>Snapshot := Some (1, ?snapshot)\<rparr>) = Some (1, ?snapshot)"
    by simp
  from Fit_resume_keeps_models [OF first_run fresh saved restart restored_state resumed_run]
  have "\<exists>observed trackerK.
         Fit_loop sampleLearner plainOptions 1 False \<lparr>Left = 0, Right = 1000\<rparr> plainFolds
           (uninterrupted sampleDecisions) (\<lambda>iteration. 7) 1 sampleTracker plainState
           = (Inr observed, trackerK)
       \<and> length (Result observed) = 1
       \<and> take 1 (Result ?final) = Result observed" .
  moreover have "length (Result ?final) = 5" by (simp add: plainStateAt_def)
  ultimately
  have c: "length (Result ?final) = 5
     \<and> (\<exists>observed trackerK.
         Fit_loop sampleLearner plainOptions 1 False \<lparr>Left = 0, Right = 1000\<rparr> plainFolds
           (uninterrupted sampleDecisions) (\<lambda>iteration. 7) 1 sampleTracker plainState
           = (Inr observed, trackerK)
       \<and> length (Result observed) = 1
       \<and> take 1 (Result ?final) = Result observed)"
    by blast
  show ?thesis
    apply (rule exI [of _ "Inl Interrupted"])
    apply (rule exI [of _ ?tracker'])
    apply (rule exI [of _ ?snapshot])
    apply (rule exI [of _ "\<lparr>Iteration = 1, IterationCount = 5, Snapshot = Some (1, ?snapshot)\<rparr>"])
    apply (rule exI [of _ "plainStateAt (3 / 100) [3 / 100]"])
    apply (rule exI [of _ ?final])
    apply (rule exI [of _ "\<lparr>Iteration = 5, IterationCount = 5, Snapshot = Some (5, snapshotSaver ?final)\<rparr>"])
    apply (intro conjI)
            apply (rule first_run)
           apply (rule refl)
          apply (rule fresh)
         apply (rule fresh)
        apply (rule fresh)
       apply (rule saved)
      apply (rule restored_state)
     apply (rule resumed_run)
    apply (rule c [THEN conjunct1])
    apply (rule c [THEN conjunct2])
    done
qed

end
